theory Spec2Isabelle
  imports Main "HOL-Library.AList"
begin

section \<open>Python values, dictionaries and exceptions\<close>

text \<open>
  The lesson preprocessor (\<^verbatim>\<open>notebooks/nb_utils/lesson_preprocessor.py\<close>) works on
  notebook cells, which are dictionaries (\<^verbatim>\<open>NotebookNode\<close>) from string keys to Python
  values. A dictionary is an association list in insertion order; a lookup reads the
  first binding of the key and an assignment replaces it in place or appends it.
\<close>

datatype pyval =
    PNone
  | PBool bool
  | PInt int
  | PStr string
  | PList "pyval list"
  | PDict "(string \<times> pyval) list"

type_synonym pydict = "(string \<times> pyval) list"

type_synonym cell = pydict

text \<open>Truth value of a Python object, as \<^verbatim>\<open>if x:\<close>, \<^verbatim>\<open>not x\<close> and \<^verbatim>\<open>x and y\<close> test it.\<close>

fun truthy :: "pyval \<Rightarrow> bool" where
  "truthy PNone = False"
| "truthy (PBool b) = b"
| "truthy (PInt n) = (n \<noteq> 0)"
| "truthy (PStr s) = (s \<noteq> [])"
| "truthy (PList vs) = (vs \<noteq> [])"
| "truthy (PDict d) = (d \<noteq> [])"

text \<open>\<^verbatim>\<open>d[k]\<close> read (None: the key is missing, Python raises KeyError), and \<^verbatim>\<open>d[k] = v\<close>.\<close>

definition dict_get :: "pydict \<Rightarrow> string \<Rightarrow> pyval option" where
  "dict_get d k = map_of d k"

definition dict_set :: "pydict \<Rightarrow> string \<Rightarrow> pyval \<Rightarrow> pydict" where
  "dict_set d k v = AList.update k v d"

text \<open>\<^verbatim>\<open>d.get(k, default)\<close>; \<^verbatim>\<open>d.get(k)\<close> is \<^verbatim>\<open>d.get(k, None)\<close>.\<close>

definition get_default :: "pydict \<Rightarrow> string \<Rightarrow> pyval \<Rightarrow> pyval" where
  "get_default d k dflt = (case map_of d k of None \<Rightarrow> dflt | Some v \<Rightarrow> v)"

text \<open>\<^verbatim>\<open>d.update(kwargs)\<close>: every binding of \<open>kwargs\<close> is assigned in order.\<close>

definition dict_update :: "pydict \<Rightarrow> pydict \<Rightarrow> pydict" where
  "dict_update d kwargs = foldl (\<lambda>acc (k, v). dict_set acc k v) d kwargs"

text \<open>
  Every \<^verbatim>\<open>raise\<close> of the source and every exception of the interpreter that the
  modelled code can meet is a value. \<open>UnrecognizedMacroException\<close> carries the macro
  name that the message is formatted with. \<open>OtherError\<close> stands for an exception raised
  by a collaborator outside this file.
\<close>

datatype error =
    UnrecognizedMacroException string
  | NameError string
  | TypeError
  | ValueError
  | IndexError
  | KeyError string
  | AttributeError
  | RecursionError
  | CalledProcessError
  | OtherError string

section \<open>Strings\<close>

text \<open>
  \<^verbatim>\<open>str.strip()\<close> removes the characters for which \<^verbatim>\<open>str.isspace()\<close> holds from
  both ends. Among the code points below 256 these are 9 to 13, 28 to 32, 133 and 160.
\<close>

definition is_space :: "char \<Rightarrow> bool" where
  "is_space c = (c \<in> set [CHR 0x09, CHR 0x0A, CHR 0x0B, CHR 0x0C, CHR 0x0D,
     CHR 0x1C, CHR 0x1D, CHR 0x1E, CHR 0x1F, CHR 0x20, CHR 0x85, CHR 0xA0])"

definition strip :: "string \<Rightarrow> string" where
  "strip s = rev (dropWhile is_space (rev (dropWhile is_space s)))"

definition endswith :: "string \<Rightarrow> char \<Rightarrow> bool" where
  "endswith s c = (s \<noteq> [] \<and> last s = c)"

text \<open>\<^verbatim>\<open>s.split(c)\<close> for a one-character separator: always at least one part.\<close>

fun split_on :: "char \<Rightarrow> string \<Rightarrow> string list" where
  "split_on c [] = [[]]"
| "split_on c (x # xs) =
     (if x = c then [] # split_on c xs
      else (case split_on c xs of
              [] \<Rightarrow> [[x]]
            | p # ps \<Rightarrow> (x # p) # ps))"

text \<open>\<^verbatim>\<open>s[i:j]\<close> for \<open>0 \<le> i\<close> and \<open>0 \<le> j\<close>: empty when \<open>j \<le> i\<close>, clipped at the end.\<close>

definition slice :: "string \<Rightarrow> nat \<Rightarrow> nat \<Rightarrow> string" where
  "slice s i j = take (j - i) (drop i s)"

text \<open>
  \<^verbatim>\<open>int(s)\<close> on a string: surrounding whitespace, an optional sign, then decimal digits
  in groups separated by single underscores. None is ValueError.
\<close>

definition is_digit :: "char \<Rightarrow> bool" where
  "is_digit c = (c \<in> set ''0123456789'')"

definition digit_val :: "char \<Rightarrow> int" where
  "digit_val c = int (of_char c) - 48"

definition digits_val :: "string \<Rightarrow> int" where
  "digits_val ds = foldl (\<lambda>acc c. 10 * acc + digit_val c) 0 ds"

definition valid_digits :: "string \<Rightarrow> bool" where
  "valid_digits ds = (\<forall>g \<in> set (split_on (CHR ''_'') ds). g \<noteq> [] \<and> (\<forall>c \<in> set g. is_digit c))"

definition py_int :: "string \<Rightarrow> int option" where
  "py_int s =
     (let t = strip s;
          neg = (t \<noteq> [] \<and> hd t = CHR ''-'');
          ds = (if t \<noteq> [] \<and> (hd t = CHR ''-'' \<or> hd t = CHR ''+'') then tl t else t)
      in if valid_digits ds
         then Some ((if neg then - 1 else 1) * digits_val (filter is_digit ds))
         else None)"

text \<open>
  \<^verbatim>\<open>xs[i]\<close> on a list: an index from \<open>0\<close> reads from the front, an index from \<open>-1\<close>
  down to \<open>-len(xs)\<close> reads from the back, anything else raises IndexError.
\<close>

definition py_index :: "'a list \<Rightarrow> int \<Rightarrow> error + 'a" where
  "py_index xs i =
     (if 0 \<le> i \<and> i < int (length xs) then Inr (xs ! nat i)
      else if i < 0 \<and> - int (length xs) \<le> i then Inr (xs ! nat (int (length xs) + i))
      else Inl IndexError)"

section \<open>Track, lesson and the preprocessor's bindings\<close>

text \<open>
  A lesson as the macros read it: \<open>topic\<close>; \<open>tutorial\<close> is the tutorial's \<open>url\<close>
  (None: the lesson has no \<open>tutorial\<close> attribute); \<open>exercise\<close> is the exercise's
  \<open>forking_url\<close> (None: no \<open>exercise\<close>); \<open>last_lesson\<close> is the attribute \<open>last\<close>;
  \<open>next_lesson\<close> is the attribute \<open>next\<close> (None: there is no following lesson).
\<close>

datatype lesson =
  Lesson (topic: string) (tutorial: "string option") (exercise: "string option")
    (last_lesson: bool) (next_lesson: "lesson option")

record track_meta =
  course_name :: string
  course_url :: string
  lessons :: "lesson list"

text \<open>The value a macro call hands back, with the cell as the call left it.\<close>

type_synonym result = "error + (pyval \<times> cell)"

text \<open>
  The bindings of one pass (\<open>preprocess\<close>, lines 30 to 39) and what the file takes from
  outside:
  \<^item> \<open>track\<close>, \<open>lesson\<close> (None for a notebook of type extra), \<open>cfg\<close>: the resources;
  \<^item> \<open>ignore_unknown_macros\<close>: the module flag \<^verbatim>\<open>IGNORE_UNKNOWN_MACROS\<close> (0 in the source);
  \<^item> \<open>inherited\<close>: the attributes the object has from its base class \<^verbatim>\<open>Preprocessor\<close>,
    which is not part of this repository: a name to what calling the attribute with the
    macro's arguments and \<^verbatim>\<open>cell=cell\<close> does (None: no such attribute, or its value is
    None);
  \<^item> \<open>macroer\<close>: \<^verbatim>\<open>MacroProcessor(track_cfg).process_cell\<close> of \<^verbatim>\<open>nb_utils.macro_processing\<close>,
    a cell or None;
  \<^item> \<open>git_branch\<close>: the outcome of \<^verbatim>\<open>get_git_branch()\<close>, a subprocess call.
\<close>

record env =
  track :: track_meta
  lesson :: "lesson option"
  cfg :: pydict
  ignore_unknown_macros :: bool
  inherited :: "string \<Rightarrow> (string list \<Rightarrow> cell \<Rightarrow> result) option"
  macroer :: "cell \<Rightarrow> error + cell option"
  git_branch :: "error + string"

section \<open>The built-in macro operations (lines 181 to 280)\<close>

text \<open>
  Each operation is called as \<^verbatim>\<open>macro_method(*args, cell=cell)\<close> with at most one
  positional argument, a string. A call that does not fit the signature raises
  TypeError. Reading an attribute of None, or one the object does not have, raises
  AttributeError.
\<close>

definition self_lesson :: "env \<Rightarrow> error + lesson" where
  "self_lesson E = (case lesson E of None \<Rightarrow> Inl AttributeError | Some l \<Rightarrow> Inr l)"

definition forking_url :: "lesson \<Rightarrow> error + string" where
  "forking_url l = (case exercise l of None \<Rightarrow> Inl AttributeError | Some u \<Rightarrow> Inr u)"

definition tutorial_url :: "lesson \<Rightarrow> error + string" where
  "tutorial_url l = (case tutorial l of None \<Rightarrow> Inl AttributeError | Some u \<Rightarrow> Inr u)"

text \<open>\<^verbatim>\<open>self.track.lessons[int(lesson_num) - 1]\<close>\<close>

definition track_lesson :: "env \<Rightarrow> string \<Rightarrow> error + lesson" where
  "track_lesson E lesson_num =
     (case py_int lesson_num of
        None \<Rightarrow> Inl ValueError
      | Some n \<Rightarrow> py_index (lessons (track E)) (n - 1))"

definition returns :: "error + string \<Rightarrow> cell \<Rightarrow> result" where
  "returns r cell = (case r of Inl e \<Rightarrow> Inl e | Inr s \<Rightarrow> Inr (PStr s, cell))"

definition EXERCISE_FORKING_URL :: "env \<Rightarrow> string list \<Rightarrow> cell \<Rightarrow> result" where
  "EXERCISE_FORKING_URL E args cell =
     (case args of
        [] \<Rightarrow> returns (case self_lesson E of Inl e \<Rightarrow> Inl e | Inr l \<Rightarrow> forking_url l) cell
      | [lesson_num] \<Rightarrow>
          returns (case track_lesson E lesson_num of Inl e \<Rightarrow> Inl e | Inr l \<Rightarrow> forking_url l) cell
      | _ \<Rightarrow> Inl TypeError)"

text \<open>\<^verbatim>\<open>cell['metadata'][key] = True\<close>\<close>

definition set_flag :: "cell \<Rightarrow> string \<Rightarrow> error + cell" where
  "set_flag cell key =
     (case dict_get cell ''metadata'' of
        None \<Rightarrow> Inl (KeyError ''metadata'')
      | Some (PDict md) \<Rightarrow> Inr (dict_set cell ''metadata'' (PDict (dict_set md key (PBool True))))
      | Some _ \<Rightarrow> Inl TypeError)"

definition HIDE_INPUT :: "env \<Rightarrow> string list \<Rightarrow> cell \<Rightarrow> result" where
  "HIDE_INPUT E args cell =
     (case args of
        [] \<Rightarrow> (case set_flag cell ''_kg_hide-input'' of Inl e \<Rightarrow> Inl e | Inr c \<Rightarrow> Inr (PNone, c))
      | _ \<Rightarrow> Inl TypeError)"

definition HIDE_OUTPUT :: "env \<Rightarrow> string list \<Rightarrow> cell \<Rightarrow> result" where
  "HIDE_OUTPUT E args cell =
     (case args of
        [] \<Rightarrow> (case set_flag cell ''_kg_hide-output'' of Inl e \<Rightarrow> Inl e | Inr c \<Rightarrow> Inr (PNone, c))
      | _ \<Rightarrow> Inl TypeError)"

definition HIDE :: "env \<Rightarrow> string list \<Rightarrow> cell \<Rightarrow> result" where
  "HIDE E args cell =
     (case args of
        [] \<Rightarrow> (case HIDE_INPUT E [] cell of
                 Inl e \<Rightarrow> Inl e
               | Inr (_, c) \<Rightarrow> (case HIDE_OUTPUT E [] c of Inl e \<Rightarrow> Inl e | Inr (_, c') \<Rightarrow> Inr (PNone, c')))
      | _ \<Rightarrow> Inl TypeError)"

definition YOURTURN :: "env \<Rightarrow> string list \<Rightarrow> cell \<Rightarrow> result" where
  "YOURTURN E args cell =
     (case args of
        [] \<Rightarrow>
          returns
            (case self_lesson E of
               Inl e \<Rightarrow> Inl e
             | Inr l \<Rightarrow>
                 (case forking_url l of
                    Inl e \<Rightarrow> Inl e
                  | Inr u \<Rightarrow>
                      Inr (''# Your Turn\<newline>\<newline>Try the [hands-on exercise]('' @ u @ '') with ''
                           @ topic l)))
            cell
      | _ \<Rightarrow> Inl TypeError)"

definition TUT_BETA_NOTE :: "env \<Rightarrow> string list \<Rightarrow> cell \<Rightarrow> result" where
  "TUT_BETA_NOTE E args cell =
     (case args of
        [jot_id] \<Rightarrow>
          (let form_url = ''https://form.jotform.com/'' @ jot_id
           in Inr (PStr (''### P.S...\<newline>\<newline>This course is still in beta, so I'd love to get your feedback. If you have a moment to [fill out a super-short survey about this lesson]('' @ form_url @ ''), I'd greatly appreciate it. You can also leave public feedback in the comments below, or on the [Learn Forum](https://www.kaggle.com/learn-forum).\<newline>''), cell))
      | _ \<Rightarrow> Inl TypeError)"

definition EXERCISE_SETUP :: "env \<Rightarrow> string list \<Rightarrow> cell \<Rightarrow> result" where
  "EXERCISE_SETUP E args cell = (case args of [] \<Rightarrow> Inr (PNone, cell) | _ \<Rightarrow> Inl TypeError)"

definition TUTORIAL_URL :: "env \<Rightarrow> string list \<Rightarrow> cell \<Rightarrow> result" where
  "TUTORIAL_URL E args cell =
     (case args of
        [] \<Rightarrow>
          (case lesson E of
             None \<Rightarrow> Inl AttributeError
           | Some l \<Rightarrow> returns (tutorial_url l) cell)
      | [lesson_num] \<Rightarrow>
          returns (case track_lesson E lesson_num of Inl e \<Rightarrow> Inl e | Inr l \<Rightarrow> tutorial_url l) cell
      | _ \<Rightarrow> Inl TypeError)"

definition EXERCISE_URL :: "env \<Rightarrow> string list \<Rightarrow> cell \<Rightarrow> result" where
  "EXERCISE_URL E args cell =
     (case args of
        [lesson_num] \<Rightarrow>
          returns (case track_lesson E lesson_num of Inl e \<Rightarrow> Inl e | Inr l \<Rightarrow> forking_url l) cell
      | _ \<Rightarrow> Inl TypeError)"

definition EXERCISE_PREAMBLE :: "env \<Rightarrow> string list \<Rightarrow> cell \<Rightarrow> result" where
  "EXERCISE_PREAMBLE E args cell =
     (case args of
        [] \<Rightarrow>
          returns
            (case self_lesson E of
               Inl e \<Rightarrow> Inl e
             | Inr l \<Rightarrow>
                 (case tutorial_url l of
                    Inl e \<Rightarrow> Inl e
                  | Inr u \<Rightarrow>
                      Inr (''These exercises accompany the tutorial on ['' @ topic l @ '']('' @ u @ '').'')))
            cell
      | _ \<Rightarrow> Inl TypeError)"

text \<open>
  \<open>KEEP_GOING\<close> (lines 239 to 257). \<^verbatim>\<open>hasattr(next_lesson, 'tutorial')\<close> is false for
  None as well, so a missing \<open>next\<close> fails at \<^verbatim>\<open>next_lesson.exercise\<close>.
\<close>

definition KEEP_GOING :: "env \<Rightarrow> string list \<Rightarrow> cell \<Rightarrow> result" where
  "KEEP_GOING E args cell =
     (case args of
        [] \<Rightarrow>
          (if truthy (get_default (cfg E) ''daily'' PNone)
           then Inr (PStr ''\<newline>**You'll get another email tomorrow so you can keep learning. See you then.**'', cell)
           else
             returns
               (case self_lesson E of
                  Inl e \<Rightarrow> Inl e
                | Inr l \<Rightarrow>
                    (case next_lesson l of
                       None \<Rightarrow> Inl AttributeError
                     | Some nl \<Rightarrow>
                         (case (case tutorial nl of Some u \<Rightarrow> Inr u | None \<Rightarrow> forking_url nl) of
                            Inl e \<Rightarrow> Inl e
                          | Inr next_url \<Rightarrow>
                              Inr (''# Keep Going\<newline>\<newline>You are ready for **['' @ topic nl @ '']('' @ next_url
                                   @ '').**\<newline>''))))
               cell)
      | _ \<Rightarrow> Inl TypeError)"

definition END_OF_EMB_EXERCISE :: "env \<Rightarrow> string list \<Rightarrow> cell \<Rightarrow> result" where
  "END_OF_EMB_EXERCISE E args cell =
     (case args of
        [jot_id] \<Rightarrow>
          (let form_url = ''https://form.jotform.com/'' @ jot_id;
               txt = ''\<newline>---\<newline>That's the end of this exercise. How'd it go? If you have any questions, be sure to post them on the [forums](https://www.kaggle.com/learn-forum).\<newline>\<newline>**P.S.** This course is still in beta, so I'd love to get your feedback. If you have a moment to [fill out a super-short survey about this exercise]('' @ form_url @ ''), I'd greatly appreciate it.\<newline>''
           in returns
                (case self_lesson E of
                   Inl e \<Rightarrow> Inl e
                 | Inr l \<Rightarrow>
                     (if \<not> last_lesson l
                      then (case next_lesson l of
                              None \<Rightarrow> Inl AttributeError
                            | Some nl \<Rightarrow>
                                (case tutorial_url nl of
                                   Inl e \<Rightarrow> Inl e
                                 | Inr u \<Rightarrow>
                                     Inr (txt @ ''\<newline># Keep going\<newline>\<newline>When you're ready to continue, [click here]('' @ u @ '') to continue on to the next tutorial on '' @ topic nl @ ''.\<newline>'')))
                      else Inr txt))
                cell)
      | _ \<Rightarrow> Inl TypeError)"

section \<open>Generated cells (lines 105 to 125)\<close>

text \<open>
  \<open>make_cell\<close>: for the cell type code the dictionary of defaults is replaced, not
  extended (line 119), so the keys \<open>cell_type\<close>, \<open>metadata\<close> and \<open>source\<close> of the first
  dictionary are gone before \<open>kwargs\<close> is merged in. \<^verbatim>\<open>nbformat.from_dict\<close> keeps the
  keys and values as they are.
\<close>

definition make_cell :: "string \<Rightarrow> pydict \<Rightarrow> cell" where
  "make_cell cell_type kwargs =
     (let defaults = [(''cell_type'', PStr cell_type), (''metadata'', PDict []), (''source'', PList [])];
          defaults = (if cell_type = ''code''
                      then [(''execution_count'', PNone), (''outputs'', PList [])]
                      else defaults)
      in dict_update defaults kwargs)"

definition pip_install_cell :: "string \<Rightarrow> cell" where
  "pip_install_cell pkg_spec =
     (let cmd = ''!pip install -U -t /kaggle/working/ '' @ pkg_spec
      in make_cell ''code'' [(''source'', PList [PStr cmd])])"

section \<open>The macro dispatcher (lines 128 to 178)\<close>

text \<open>
  Lines 171 to 174 of \<open>expand_macro\<close>: a macro text that ends with a closing parenthesis
  is cut at its opening parenthesis into the name and one argument. The unpacking
  \<^verbatim>\<open>macro, argstr = ...\<close> raises ValueError unless the split has exactly two parts.
\<close>

definition parse_macro :: "string \<Rightarrow> error + (string \<times> string list)" where
  "parse_macro macro =
     (if endswith macro (CHR '')'')
      then (case split_on (CHR ''('') (butlast macro) of
              [name, argstr] \<Rightarrow> Inr (name, if strip argstr \<noteq> [] then [strip argstr] else [])
            | _ \<Rightarrow> Inl ValueError)
      else Inr (macro, []))"

text \<open>
  Line 175 is \<^verbatim>\<open>getattr(self, macro, None)\<close>: the name is looked up among all attributes
  of the preprocessor object. These are the twelve macro operations, the other methods
  the class body defines, the three bindings \<open>preprocess\<close> sets on the instance, and what
  the base class provides.
\<close>

definition macro_names :: "string list" where
  "macro_names = [''EXERCISE_FORKING_URL'', ''HIDE_INPUT'', ''HIDE_OUTPUT'', ''HIDE'', ''YOURTURN'',
     ''TUT_BETA_NOTE'', ''EXERCISE_SETUP'', ''TUTORIAL_URL'', ''EXERCISE_URL'', ''EXERCISE_PREAMBLE'',
     ''KEEP_GOING'', ''END_OF_EMB_EXERCISE'']"

definition pipeline_names :: "string list" where
  "pipeline_names = [''preprocess'', ''add_header_and_footer'', ''pip_install_lt_hack'',
     ''pip_install_hack'', ''pip_install_cell'', ''make_cell'', ''process_cell'', ''expand_macro'']"

definition builtin :: "env \<Rightarrow> string \<Rightarrow> (string list \<Rightarrow> cell \<Rightarrow> result) option" where
  "builtin E name =
     (if name = ''EXERCISE_FORKING_URL'' then Some (EXERCISE_FORKING_URL E)
      else if name = ''HIDE_INPUT'' then Some (HIDE_INPUT E)
      else if name = ''HIDE_OUTPUT'' then Some (HIDE_OUTPUT E)
      else if name = ''HIDE'' then Some (HIDE E)
      else if name = ''YOURTURN'' then Some (YOURTURN E)
      else if name = ''TUT_BETA_NOTE'' then Some (TUT_BETA_NOTE E)
      else if name = ''EXERCISE_SETUP'' then Some (EXERCISE_SETUP E)
      else if name = ''TUTORIAL_URL'' then Some (TUTORIAL_URL E)
      else if name = ''EXERCISE_URL'' then Some (EXERCISE_URL E)
      else if name = ''EXERCISE_PREAMBLE'' then Some (EXERCISE_PREAMBLE E)
      else if name = ''KEEP_GOING'' then Some (KEEP_GOING E)
      else if name = ''END_OF_EMB_EXERCISE'' then Some (END_OF_EMB_EXERCISE E)
      else None)"

text \<open>
  The other methods of the class, called as a macro. None of \<open>preprocess\<close>,
  \<open>add_header_and_footer\<close>, \<open>pip_install_lt_hack\<close>, \<open>pip_install_hack\<close> and
  \<open>pip_install_cell\<close> accepts the keyword \<open>cell\<close>. \<open>make_cell\<close> needs its positional
  \<open>cell_type\<close> and takes \<open>cell\<close> into \<open>kwargs\<close>. \<open>process_cell\<close> called with the
  keyword alone scans the same cell again, whose source still holds the reference that
  made the call: the recursion has no end and the interpreter stops it with
  RecursionError, which the handler of line 151 raises again; with a positional argument
  \<open>cell\<close> is given twice. For the name \<open>expand_macro\<close> the table only records that the
  attribute exists: its call is the recursive case of \<open>expand_macro\<close> below, which never
  consults this entry.
\<close>

definition pipeline_method :: "string \<Rightarrow> string list \<Rightarrow> cell \<Rightarrow> result" where
  "pipeline_method name args cell =
     (if name = ''make_cell''
      then (case args of
              [cell_type] \<Rightarrow> Inr (PDict (make_cell cell_type [(''cell'', PDict cell)]), cell)
            | _ \<Rightarrow> Inl TypeError)
      else if name = ''process_cell''
      then (case args of [] \<Rightarrow> Inl RecursionError | _ \<Rightarrow> Inl TypeError)
      else Inl TypeError)"

text \<open>
  The instance attributes: \<open>track\<close> and \<open>cfg\<close> are objects that cannot be called;
  \<open>lesson\<close> is one too, unless it is None, which \<open>getattr\<close> hands back like a missing
  attribute. Instance and class attributes come before the inherited ones.
\<close>

definition getattr_self :: "env \<Rightarrow> string \<Rightarrow> (string list \<Rightarrow> cell \<Rightarrow> result) option" where
  "getattr_self E name =
     (if name \<in> set macro_names then builtin E name
      else if name \<in> set pipeline_names then Some (pipeline_method name)
      else if name = ''track'' \<or> name = ''cfg'' then Some (\<lambda>args cell. Inl TypeError)
      else if name = ''lesson''
      then (case lesson E of None \<Rightarrow> None | Some l \<Rightarrow> Some (\<lambda>args cell. Inl TypeError))
      else inherited E name)"

text \<open>
  \<open>expand_macro\<close> (lines 163 to 178). The attribute named \<open>expand_macro\<close> is this
  method itself: called with one argument it expands the argument as a macro text, on
  the same cell. The argument is shorter than the text it was cut from.
\<close>

function expand_macro :: "env \<Rightarrow> string \<Rightarrow> cell \<Rightarrow> result" where
  "expand_macro E macro cell =
     (case parse_macro macro of
        Inl e \<Rightarrow> Inl e
      | Inr (name, args) \<Rightarrow>
          (if name = ''expand_macro''
           then (case args of
                   [m] \<Rightarrow> expand_macro E m cell
                 | _ \<Rightarrow> Inl TypeError)
           else (case getattr_self E name of
                   None \<Rightarrow> Inl (UnrecognizedMacroException name)
                 | Some macro_method \<Rightarrow> macro_method args cell)))"
  by pat_completeness auto
termination
  apply (relation "measure (\<lambda>(E, macro, cell). length macro)")
  subgoal by simp
  subgoal premises p for E macro cell x2 name args m xs
  proof -
    from p obtain argstr where
      e: "endswith macro (CHR '')'')"
      and sp: "split_on (CHR ''('') (butlast macro) = [name, argstr]"
      and m: "m = strip argstr"
      by (auto simp: parse_macro_def split: if_splits list.splits)
    have parts: "length (concat (split_on c t)) + length (split_on c t) = Suc (length t)"
      for c t
      by (induction t) (auto split: list.splits)
    from parts[of "CHR ''(''" "butlast macro"] sp
    have "length argstr \<le> length (butlast macro)" by simp
    moreover from e have "length (butlast macro) < length macro"
      by (simp add: endswith_def)
    moreover have "length (strip argstr) \<le> length argstr"
      unfolding strip_def by (metis length_dropWhile_le length_rev le_trans)
    ultimately show ?thesis
      using m by simp
  qed
  done

declare expand_macro.simps [simp del]

text \<open>
  The pattern of line 130 is \<^verbatim>\<open>#\$([^$]+)\$\<close>: a hash, a dollar, one or more characters
  other than a dollar, and a dollar. \<open>match_at s\<close> matches it at the start of \<open>s\<close> and
  gives the group and the text after the match. The class takes every character up to
  the next dollar, so there is a match only if that run is not empty and a dollar
  follows it.
\<close>

definition match_at :: "string \<Rightarrow> (string \<times> string) option" where
  "match_at s =
     (case s of
        c1 # c2 # r \<Rightarrow>
          (if c1 = CHR ''#'' \<and> c2 = CHR ''$''
           then (let g = takeWhile (\<lambda>c. c \<noteq> CHR ''$'') r;
                     rest = dropWhile (\<lambda>c. c \<noteq> CHR ''$'') r
                 in if g \<noteq> [] \<and> rest \<noteq> [] then Some (g, tl rest) else None)
           else None)
      | _ \<Rightarrow> None)"

text \<open>
  \<^verbatim>\<open>re.finditer\<close>: the matches from left to right, none overlapping another, each
  with its span \<open>(a, b)\<close> and its group. After a match the scan goes on at its end,
  otherwise at the next character.
\<close>

function finditer_from :: "nat \<Rightarrow> string \<Rightarrow> (nat \<times> nat \<times> string) list" where
  "finditer_from pos [] = []"
| "finditer_from pos (c # cs) =
     (case match_at (c # cs) of
        Some (g, rest) \<Rightarrow> (pos, pos + length g + 3, g) # finditer_from (pos + length g + 3) rest
      | None \<Rightarrow> finditer_from (Suc pos) cs)"
  by pat_completeness auto
termination
  apply (relation "measure (\<lambda>(pos, s). length s)")
  subgoal by simp
  subgoal by simp
  subgoal premises p for pos c cs x2 g rest
  proof -
    from p obtain r where s: "c # cs = CHR ''#'' # CHR ''$'' # r"
      and r: "rest = tl (dropWhile (\<lambda>c. c \<noteq> CHR ''$'') r)"
      by (auto simp: match_at_def Let_def split: list.splits if_splits)
    have "length (dropWhile (\<lambda>c. c \<noteq> CHR ''$'') r) \<le> length r"
      by (rule length_dropWhile_le)
    with s r show ?thesis
      by simp
  qed
  done

definition finditer :: "string \<Rightarrow> (nat \<times> nat \<times> string) list" where
  "finditer src = finditer_from 0 src"

text \<open>
  Lines 143 to 153: the expansion of one match. An unrecognized macro is passed over
  with the expansion None when the module flag is set, and raised again otherwise; any
  other exception is printed and raised again.
\<close>

definition try_expand :: "env \<Rightarrow> string \<Rightarrow> cell \<Rightarrow> result" where
  "try_expand E macro cell =
     (case expand_macro E macro cell of
        Inl (UnrecognizedMacroException n) \<Rightarrow>
          (if ignore_unknown_macros E then Inr (PNone, cell)
           else Inl (UnrecognizedMacroException n))
      | Inl e \<Rightarrow> Inl e
      | Inr r \<Rightarrow> Inr r)"

text \<open>Lines 156 and 157: \<^verbatim>\<open>if expansion: newsrc += expansion\<close>, a TypeError unless a string.\<close>

definition add_expansion :: "string \<Rightarrow> pyval \<Rightarrow> error + string" where
  "add_expansion newsrc expansion =
     (if truthy expansion
      then (case expansion of PStr t \<Rightarrow> Inr (newsrc @ t) | _ \<Rightarrow> Inl TypeError)
      else Inr newsrc)"

text \<open>The loop of lines 139 to 158 over the matches, with the state \<open>(cell, newsrc, i)\<close>.\<close>

fun macro_loop ::
  "env \<Rightarrow> string \<Rightarrow> (nat \<times> nat \<times> string) list \<Rightarrow> cell \<Rightarrow> string \<Rightarrow> nat
     \<Rightarrow> error + (cell \<times> string \<times> nat)" where
  "macro_loop E src [] cell newsrc i = Inr (cell, newsrc, i)"
| "macro_loop E src ((a, b, macro) # ms) cell newsrc i =
     (case try_expand E macro cell of
        Inl e \<Rightarrow> Inl e
      | Inr (expansion, cell') \<Rightarrow>
          (case add_expansion (newsrc @ slice src i a) expansion of
             Inl e \<Rightarrow> Inl e
           | Inr newsrc' \<Rightarrow> macro_loop E src ms cell' newsrc' b))"

text \<open>
  \<open>process_cell\<close> (lines 128 to 161): the source must be a string for \<open>finditer\<close>;
  the rebuilt text is assigned to the cell's \<open>source\<close> and the cell is returned.
\<close>

definition process_cell :: "env \<Rightarrow> cell \<Rightarrow> error + cell" where
  "process_cell E cell =
     (case dict_get cell ''source'' of
        None \<Rightarrow> Inl (KeyError ''source'')
      | Some (PStr src) \<Rightarrow>
          (case macro_loop E src (finditer src) cell [] 0 of
             Inl e \<Rightarrow> Inl e
           | Inr (cell', newsrc, i) \<Rightarrow> Inr (dict_set cell' ''source'' (PStr (newsrc @ drop i src))))
      | Some _ \<Rightarrow> Inl TypeError)"

section \<open>The pipeline (lines 28 to 103)\<close>

text \<open>
  \<open>add_header_and_footer\<close> (lines 63 to 71). Line 67 is written
  \<^verbatim>\<open>course info + "\n---"\<close>, which is not an expression; it is read here as
  \<open>course_info\<close>, the name the next line uses. Line 69 then calls \<open>make_cell\<close> as a
  global name, and the module binds no such name (\<open>make_cell\<close> is a static method of the
  class): the call raises NameError before any cell is built. The last line would add a
  cell to a list and names \<open>footer_cells\<close>, which nothing binds either.
\<close>

definition add_header_and_footer :: "env \<Rightarrow> cell list \<Rightarrow> error + cell list" where
  "add_header_and_footer E cells =
     (let course_info = ''**['' @ course_name (track E) @ '' Course Home Page]('' @ course_url (track E)
                        @ '')**'';
          header_content = course_info @ ''\<newline>---'';
          footer_content = ''---\<newline>'' @ course_info
      in Inl (NameError ''make_cell''))"

text \<open>
  \<open>pip_install_hack\<close> (lines 85 to 103) gives the new value of \<^verbatim>\<open>nb.cells\<close>;
  with no package it returns at once and the cells stay as they are.
\<close>

definition syspath_cell :: cell where
  "syspath_cell =
     make_cell ''code''
       [(''source'', PList [PStr ''import sys\<newline>'', PStr ''sys.path.append('/kaggle/working')''])]"

definition pip_install_hack :: "cell list \<Rightarrow> string list \<Rightarrow> cell list" where
  "pip_install_hack nb_cells pkgs =
     (if pkgs = [] then nb_cells
      else (let extra_cells = foldl (\<lambda>extra pkg. extra @ [pip_install_cell pkg]) [] pkgs;
                extra_cells = extra_cells @ [syspath_cell]
            in extra_cells @ nb_cells))"

text \<open>
  \<open>pip_install_lt_hack\<close> (lines 73 to 83): a failed subprocess falls back to the
  branch master; any other exception of the call leaves the method.
\<close>

definition pip_install_lt_hack :: "env \<Rightarrow> cell list \<Rightarrow> error + cell list" where
  "pip_install_lt_hack E nb_cells =
     (case (case git_branch E of
              Inl CalledProcessError \<Rightarrow> Inr ''master''
            | Inl e \<Rightarrow> Inl e
            | Inr branch \<Rightarrow> Inr branch) of
        Inl e \<Rightarrow> Inl e
      | Inr branch \<Rightarrow>
          (let pkg = ''git+https://github.com/Kaggle/learntools.git@'' @ branch
           in Inr (pip_install_hack nb_cells [pkg])))"

text \<open>
  The loop of lines 41 to 50 with its accumulator \<open>new_cells\<close>. \<^verbatim>\<open>src.strip()\<close> needs
  a string. \<^verbatim>\<open>c and macroer.process_cell(c)\<close> hands a cell that is not empty to the
  external resolver and keeps an empty one; only None is left out.
\<close>

fun scan_cells :: "env \<Rightarrow> cell list \<Rightarrow> cell list \<Rightarrow> error + cell list" where
  "scan_cells E [] new_cells = Inr new_cells"
| "scan_cells E (cell # rest) new_cells =
     (case dict_get cell ''source'' of
        None \<Rightarrow> Inl (KeyError ''source'')
      | Some (PStr src) \<Rightarrow>
          (if strip src = ''#%%RM_BELOW%%'' then Inr new_cells
           else (case process_cell E cell of
                   Inl e \<Rightarrow> Inl e
                 | Inr c \<Rightarrow>
                     (case (if truthy (PDict c) then macroer E c else Inr (Some c)) of
                        Inl e \<Rightarrow> Inl e
                      | Inr None \<Rightarrow> scan_cells E rest new_cells
                      | Inr (Some c') \<Rightarrow> scan_cells E rest (new_cells @ [c']))))
      | Some _ \<Rightarrow> Inl AttributeError)"

text \<open>
  \<open>preprocess\<close> (lines 28 to 61) gives the cells of the returned notebook, for the
  notebook's cells and its declared type \<^verbatim>\<open>nb_meta.type\<close>. The value of
  \<open>add_header_and_footer\<close> is not used (line 54): line 56 installs \<open>new_cells\<close>.
\<close>

definition preprocess :: "env \<Rightarrow> cell list \<Rightarrow> string \<Rightarrow> error + cell list" where
  "preprocess E nb_cells nb_type =
     (case scan_cells E nb_cells [] of
        Inl e \<Rightarrow> Inl e
      | Inr new_cells \<Rightarrow>
          (case (if \<not> truthy (get_default (cfg E) ''daily'' PNone)
                 then add_header_and_footer E new_cells
                 else Inr new_cells) of
             Inl e \<Rightarrow> Inl e
           | Inr _ \<Rightarrow>
               (if truthy (get_default (cfg E) ''development'' (PBool False)) \<and> nb_type = ''exercise''
                then pip_install_lt_hack E new_cells
                else Inr new_cells)))"

section \<open>The geocoding stand-in (\<^verbatim>\<open>learntools/geospatial/tools.py\<close>)\<close>

definition all_addresses :: "string list" where
  "all_addresses = [''2224 Shattuck Avenue Berkeley CA'',
                    ''1799 Solano Avenue Berkeley CA'',
                    ''1444 Shattuck Place Berkeley CA'',
                    ''3001 Telegraph Avenue Berkeley CA'',
                    ''2128 Oxford Street Berkeley CA'']"

text \<open>\<^verbatim>\<open>xs.index(x)\<close>: the first position of \<open>x\<close>; None is ValueError.\<close>

fun list_index :: "'a list \<Rightarrow> 'a \<Rightarrow> nat option" where
  "list_index [] x = None"
| "list_index (y # ys) x = (if y = x then Some 0 else map_option Suc (list_index ys x))"

text \<open>The decimal text of a natural number, as \<^verbatim>\<open>"{}".format(n)\<close> writes it.\<close>

fun str_nat :: "nat \<Rightarrow> string" where
  "str_nat n =
     (if n < 10 then [char_of (48 + n)]
      else str_nat (n div 10) @ [char_of (48 + n mod 10)])"

declare str_nat.simps [simp del]

text \<open>
  \<open>Nominatim.geocode\<close> (lines 13 to 19). Reading the shapefile (\<^verbatim>\<open>gpd.read_file\<close>) and
  building the point from the frame's geometry (\<^verbatim>\<open>Point\<close>) belong to libraries: both
  are parameters that give a value or raise. The bare \<^verbatim>\<open>except\<close> turns every exception
  of the body into None.
\<close>

definition geocode ::
  "(string \<Rightarrow> error + 'g) \<Rightarrow> ('g \<Rightarrow> error + 'p) \<Rightarrow> string \<Rightarrow> 'p option" where
  "geocode read_file Point address =
     (case list_index all_addresses address of
        None \<Rightarrow> None
      | Some my_index \<Rightarrow>
          (case read_file (''../input/geospatial-learn-course-data/ex4_files/ex4_files/add_''
                           @ str_nat my_index @ ''.shp'') of
             Inl e \<Rightarrow> None
           | Inr gdf \<Rightarrow> (case Point gdf of Inl e \<Rightarrow> None | Inr p \<Rightarrow> Some p)))"

section \<open>Predicates and sample data for the properties\<close>

text \<open>The test of line 45: the cell's trimmed source is the marker that ends the scan.\<close>

definition is_sentinel :: "cell \<Rightarrow> bool" where
  "is_sentinel c =
     (case dict_get c ''source'' of Some (PStr src) \<Rightarrow> strip src = ''#%%RM_BELOW%%'' | _ \<Rightarrow> False)"

text \<open>
  A cell that goes through one round of the loop as it is: it is not the marker, the
  dispatcher returns it unchanged and the external resolver keeps it.
\<close>

definition passes :: "env \<Rightarrow> cell \<Rightarrow> bool" where
  "passes E c =
     ((case dict_get c ''source'' of Some (PStr src) \<Rightarrow> strip src \<noteq> ''#%%RM_BELOW%%'' | _ \<Rightarrow> False)
      \<and> process_cell E c = Inr c \<and> macroer E c = Inr (Some c))"

text \<open>A track of two lessons and a pass over it, for the concrete instances below.\<close>

definition sample_track :: track_meta where
  "sample_track =
     \<lparr>course_name = ''Python'', course_url = ''https://www.kaggle.com/learn/python'',
      lessons = [Lesson ''Syntax'' (Some ''https://k/t1'') (Some ''https://k/e1'') False
                   (Some (Lesson ''Functions'' (Some ''https://k/t2'') (Some ''https://k/e2'') True None)),
                 Lesson ''Functions'' (Some ''https://k/t2'') (Some ''https://k/e2'') True None]\<rparr>"

definition sample_env :: env where
  "sample_env =
     \<lparr>track = sample_track, lesson = Some (hd (lessons sample_track)), cfg = [],
      ignore_unknown_macros = False, inherited = (\<lambda>name. None),
      macroer = (\<lambda>c. Inr (Some c)), git_branch = Inr ''master''\<rparr>"

definition text_cell :: "string \<Rightarrow> cell" where
  "text_cell s = [(''cell_type'', PStr ''markdown''), (''metadata'', PDict []), (''source'', PStr s)]"

text \<open>
  The reconstruction as the specification words it: one inserted text per match, in
  order, each woven between the literal text before its match, then the literal tail.
  \<open>inserted_text\<close> is what one match contributes (the empty text when the expansion is
  not truthy), \<open>expansions\<close> collects the texts of all matches, threading the cell
  through the calls, and \<open>rebuild\<close> weaves texts and literal text together.
  \<open>reference\<close> is the text of the match itself.
\<close>

definition inserted_text :: "env \<Rightarrow> string \<Rightarrow> cell \<Rightarrow> error + (string \<times> cell)" where
  "inserted_text E macro cell =
     (case try_expand E macro cell of
        Inl e \<Rightarrow> Inl e
      | Inr (expansion, cell') \<Rightarrow>
          (case add_expansion [] expansion of Inl e \<Rightarrow> Inl e | Inr t \<Rightarrow> Inr (t, cell')))"

fun expansions ::
  "env \<Rightarrow> (nat \<times> nat \<times> string) list \<Rightarrow> cell \<Rightarrow> error + (string list \<times> cell)" where
  "expansions E [] cell = Inr ([], cell)"
| "expansions E ((a, b, macro) # ms) cell =
     (case inserted_text E macro cell of
        Inl e \<Rightarrow> Inl e
      | Inr (t, cell') \<Rightarrow>
          (case expansions E ms cell' of
             Inl e \<Rightarrow> Inl e
           | Inr (ts, cell'') \<Rightarrow> Inr (t # ts, cell'')))"

fun rebuild :: "string \<Rightarrow> nat \<Rightarrow> ((nat \<times> nat \<times> string) \<times> string) list \<Rightarrow> string" where
  "rebuild src i [] = drop i src"
| "rebuild src i (((a, b, macro), t) # rest) = slice src i a @ t @ rebuild src b rest"

definition reference :: "nat \<times> nat \<times> string \<Rightarrow> string" where
  "reference m = ''#$'' @ snd (snd m) @ ''$''"

text \<open>The sample pass in daily mode.\<close>

definition daily_env :: env where
  "daily_env = sample_env\<lparr>cfg := [(''daily'', PBool True)]\<rparr>"

text \<open>The sample pass with the module flag set.\<close>

definition permissive_env :: env where
  "permissive_env = sample_env\<lparr>ignore_unknown_macros := True\<rparr>"

text \<open>The sample pass in daily mode with the development switch on.\<close>

definition development_env :: env where
  "development_env = sample_env\<lparr>cfg := [(''daily'', PBool True), (''development'', PBool True)]\<rparr>"

section \<open>Verified properties\<close>

subsection \<open>Truncation at the marker cell\<close>

lemma scan_cells_takeWhile:
  "scan_cells E cells new_cells
     = scan_cells E (takeWhile (\<lambda>c. \<not> is_sentinel c) cells) new_cells"
proof (induction cells arbitrary: new_cells)
  case Nil
  show ?case by simp
next
  case (Cons cell rest)
  show ?case
  proof (cases "is_sentinel cell")
    case True
    then show ?thesis
      by (auto simp: is_sentinel_def split: option.splits pyval.splits)
  next
    case False
    then show ?thesis
      using Cons.IH
      by (auto simp: is_sentinel_def split: option.splits pyval.splits sum.splits)
  qed
qed

lemma scan_cells_passes:
  "\<forall>c \<in> set pre. passes E c \<Longrightarrow>
     scan_cells E (pre @ rest) new_cells = scan_cells E rest (new_cells @ pre)"
proof (induction pre arbitrary: new_cells)
  case Nil
  show ?case by simp
next
  case (Cons c pre)
  from Cons.prems have c: "passes E c" and pre: "\<forall>c \<in> set pre. passes E c"
    by simp_all
  from c have "c \<noteq> []"
    by (auto simp: passes_def dict_get_def)
  with c have "scan_cells E ((c # pre) @ rest) new_cells
                 = scan_cells E (pre @ rest) (new_cells @ [c])"
    by (auto simp: passes_def split: option.splits pyval.splits)
  also have "\<dots> = scan_cells E rest ((new_cells @ [c]) @ pre)"
    by (rule Cons.IH[OF pre])
  finally show ?case by simp
qed

lemma scan_cells_sentinel:
  "is_sentinel s \<Longrightarrow> scan_cells E (s # post) new_cells = Inr new_cells"
  by (auto simp: is_sentinel_def split: option.splits pyval.splits)

text \<open>
  C4. The scan of the cells depends only on the cells before the first one whose trimmed
  source is the marker \<^verbatim>\<open>#%%RM_BELOW%%\<close>: that cell and all after it are dropped without
  being looked at. In particular, when the cells \<open>pre\<close> before a marker cell \<open>s\<close> pass
  through the loop as they are, the scan of \<open>pre @ s # post\<close> gives exactly \<open>pre\<close>, in
  the original order.
\<close>

theorem scan_stops_at_first_sentinel:
  "scan_cells E cells new_cells
     = scan_cells E (takeWhile (\<lambda>c. \<not> is_sentinel c) cells) new_cells
   \<and> (is_sentinel s \<and> (\<forall>c \<in> set pre. passes E c)
        \<longrightarrow> scan_cells E (pre @ s # post) [] = Inr pre)"
  using scan_cells_takeWhile[of E cells new_cells] scan_cells_passes[of pre E "s # post" "[]"]
    scan_cells_sentinel[of s E post pre]
  by simp

theorem scan_stops_at_first_sentinel_witness:
  "scan_cells sample_env
     [text_cell ''A'', text_cell ''B'', text_cell '' #%%RM_BELOW%%'', text_cell ''C'', text_cell ''D''] []
   = Inr [text_cell ''A'', text_cell ''B'']"
proof -
  have s: "is_sentinel (text_cell '' #%%RM_BELOW%%'')"
    by (simp add: is_sentinel_def text_cell_def dict_get_def strip_def is_space_def)
  have p: "\<forall>c \<in> set [text_cell ''A'', text_cell ''B'']. passes sample_env c"
    by (simp add: passes_def text_cell_def dict_get_def dict_set_def strip_def is_space_def
        process_cell_def finditer_def match_at_def sample_env_def)
  from scan_stops_at_first_sentinel[of sample_env "[]" "[]" "text_cell '' #%%RM_BELOW%%''"
      "[text_cell ''A'', text_cell ''B'']" "[text_cell ''C'', text_cell ''D'']"] s p
  show ?thesis by simp
qed

subsection \<open>Reconstruction of the cell text\<close>

lemma add_expansion_acc:
  "add_expansion ns v = (case add_expansion [] v of Inl e \<Rightarrow> Inl e | Inr t \<Rightarrow> Inr (ns @ t))"
  by (cases v) (auto simp: add_expansion_def)

lemma macro_loop_expansions:
  "(case macro_loop E src ms cell ns i of
      Inl e \<Rightarrow> Inl e
    | Inr (c', ns', i') \<Rightarrow> Inr (c', ns' @ drop i' src))
   = (case expansions E ms cell of
        Inl e \<Rightarrow> Inl e
      | Inr (ts, c') \<Rightarrow> Inr (c', ns @ rebuild src i (zip ms ts)))"
proof (induction ms arbitrary: cell ns i)
  case Nil
  show ?case by simp
next
  case (Cons m ms)
  obtain a b macro where m: "m = (a, b, macro)"
    by (cases m) auto
  show ?case
  proof (cases "try_expand E macro cell")
    case (Inl e)
    then show ?thesis by (simp add: m inserted_text_def)
  next
    case (Inr r)
    obtain v c1 where r: "r = (v, c1)" by (cases r) auto
    show ?thesis
    proof (cases "add_expansion [] v")
      case (Inl e)
      with Inr r show ?thesis
        by (simp add: m inserted_text_def add_expansion_acc[of "ns @ slice src i a"])
    next
      case t: (Inr t)
      have step: "macro_loop E src (m # ms) cell ns i = macro_loop E src ms c1 (ns @ slice src i a @ t) b"
        using Inr r t by (simp add: m add_expansion_acc[of "ns @ slice src i a"])
      have ex: "expansions E (m # ms) cell
                  = (case expansions E ms c1 of Inl e \<Rightarrow> Inl e | Inr (ts, c') \<Rightarrow> Inr (t # ts, c'))"
        using Inr r t by (simp add: m inserted_text_def)
      show ?thesis
        unfolding step ex using Cons.IH[of c1 "ns @ slice src i a @ t" b]
        by (auto simp: m split: sum.splits)
    qed
  qed
qed

lemma match_at_text:
  "match_at s = Some (g, rest) \<Longrightarrow> s = ''#$'' @ g @ ''$'' @ rest \<and> g \<noteq> [] \<and> CHR ''$'' \<notin> set g"
proof -
  assume a: "match_at s = Some (g, rest)"
  then obtain r where s: "s = CHR ''#'' # CHR ''$'' # r"
    and g: "g = takeWhile (\<lambda>c. c \<noteq> CHR ''$'') r"
    and ne: "g \<noteq> []" "dropWhile (\<lambda>c. c \<noteq> CHR ''$'') r \<noteq> []"
    and r: "rest = tl (dropWhile (\<lambda>c. c \<noteq> CHR ''$'') r)"
    by (auto simp: match_at_def Let_def split: list.splits if_splits)
  from ne(2) have "hd (dropWhile (\<lambda>c. c \<noteq> CHR ''$'') r) = CHR ''$''"
    using hd_dropWhile[of "\<lambda>c. c \<noteq> CHR ''$''" r] by simp
  with ne(2) r have "dropWhile (\<lambda>c. c \<noteq> CHR ''$'') r = CHR ''$'' # rest"
    by (cases "dropWhile (\<lambda>c. c \<noteq> CHR ''$'') r") auto
  then have "r = g @ CHR ''$'' # rest"
    using takeWhile_dropWhile_id[of "\<lambda>c. c \<noteq> CHR ''$''" r] g by simp
  moreover have "CHR ''$'' \<notin> set g"
    unfolding g by (auto dest: set_takeWhileD)
  ultimately show ?thesis using s ne(1) by simp
qed

lemma slice_drop: "i \<le> pos \<Longrightarrow> slice src i pos @ drop pos src = drop i src"
proof -
  assume "i \<le> pos"
  then have "drop pos src = drop (pos - i) (drop i src)" by simp
  then show ?thesis unfolding slice_def by (metis append_take_drop_id)
qed

lemma rebuild_references:
  "drop pos src = s \<Longrightarrow> i \<le> pos \<Longrightarrow>
     rebuild src i (zip (finditer_from pos s) (map reference (finditer_from pos s))) = drop i src"
proof (induction pos s arbitrary: i rule: finditer_from.induct)
  case (1 pos)
  then show ?case by simp
next
  case (2 pos c cs)
  show ?case
  proof (cases "match_at (c # cs)")
    case None
    from "2.prems" have "drop (Suc pos) src = cs"
      by (metis drop_Suc list.sel(3) tl_drop)
    from "2.IH"(1)[OF None this, of i] "2.prems" None show ?thesis by simp
  next
    case (Some p)
    obtain g rest where p: "p = (g, rest)" by (cases p) auto
    from Some p have cs: "c # cs = ''#$'' @ g @ ''$'' @ rest"
      using match_at_text by blast
    with "2.prems" have d: "drop pos src = ''#$'' @ g @ ''$'' @ rest" by simp
    have "drop (pos + length g + 3) src = drop (length g + 3) (drop pos src)"
      by (simp add: ac_simps)
    moreover have "drop (length g + 3) (''#$'' @ g @ ''$'' @ rest) = rest"
      by (simp add: numeral_3_eq_3)
    ultimately have rest: "drop (pos + length g + 3) src = rest"
      using d by simp
    have "rebuild src (pos + length g + 3)
            (zip (finditer_from (pos + length g + 3) rest)
                 (map reference (finditer_from (pos + length g + 3) rest)))
          = drop (pos + length g + 3) src"
      using "2.IH"(2)[OF Some p[symmetric] rest, of "pos + length g + 3"] by simp
    with Some p rest have "rebuild src i (zip (finditer_from pos (c # cs)) (map reference (finditer_from pos (c # cs))))
        = slice src i pos @ (''#$'' @ g @ ''$'') @ rest"
      by (simp add: reference_def)
    also have "\<dots> = slice src i pos @ drop pos src" using d by simp
    also have "\<dots> = drop i src" using "2.prems"(2) by (rule slice_drop)
    finally show ?thesis .
  qed
qed


lemma finditer_from_spans:
  "drop pos src = s \<Longrightarrow> (a, b, m) \<in> set (finditer_from pos s) \<Longrightarrow>
     pos \<le> a \<and> b = a + length m + 3 \<and> b \<le> length src \<and> slice src a b = ''#$'' @ m @ ''$''"
proof (induction pos s rule: finditer_from.induct)
  case (1 pos)
  then show ?case by simp
next
  case (2 pos c cs)
  show ?case
  proof (cases "match_at (c # cs)")
    case None
    from "2.prems"(1) have d: "drop (Suc pos) src = cs"
      by (metis drop_Suc list.sel(3) tl_drop)
    from "2.prems"(2) None have "(a, b, m) \<in> set (finditer_from (Suc pos) cs)"
      by simp
    from "2.IH"(1)[OF None d this] show ?thesis by auto
  next
    case (Some p)
    obtain g rest where p: "p = (g, rest)" by (cases p) auto
    from Some p have cs: "c # cs = ''#$'' @ g @ ''$'' @ rest"
      using match_at_text by blast
    with "2.prems"(1) have d: "drop pos src = ''#$'' @ g @ ''$'' @ rest" by simp
    have len: "pos + length g + 3 \<le> length src"
    proof -
      have "length (drop pos src) = length g + 3 + length rest"
        unfolding d by simp
      then show ?thesis by simp
    qed
    have "drop (pos + length g + 3) src = drop (length g + 3) (drop pos src)"
      by (simp add: ac_simps)
    moreover have "drop (length g + 3) (''#$'' @ g @ ''$'' @ rest) = rest"
      by (simp add: numeral_3_eq_3)
    ultimately have rest: "drop (pos + length g + 3) src = rest"
      using d by simp
    have here: "slice src pos (pos + length g + 3) = ''#$'' @ g @ ''$''"
    proof -
      have "slice src pos (pos + length g + 3) = take (length g + 3) (drop pos src)"
        by (simp add: slice_def)
      also have "\<dots> = ''#$'' @ g @ ''$''"
        unfolding d by (simp add: numeral_3_eq_3)
      finally show ?thesis .
    qed
    from "2.prems"(2) Some p
    consider "(a, b, m) = (pos, pos + length g + 3, g)"
      | "(a, b, m) \<in> set (finditer_from (pos + length g + 3) rest)"
      by auto
    then show ?thesis
    proof cases
      case 1
      with len here show ?thesis by simp
    next
      case 2
      from "2.IH"(2)[OF Some p[symmetric] rest 2] show ?thesis by auto
    qed
  qed
qed

lemma finditer_from_ordered:
  "drop pos src = s \<Longrightarrow>
     sorted_wrt (\<lambda>x y. fst (snd x) \<le> fst y) (finditer_from pos s)"
proof (induction pos s rule: finditer_from.induct)
  case (1 pos)
  then show ?case by simp
next
  case (2 pos c cs)
  show ?case
  proof (cases "match_at (c # cs)")
    case None
    from "2.prems"(1) have d: "drop (Suc pos) src = cs"
      by (metis drop_Suc list.sel(3) tl_drop)
    from "2.IH"(1)[OF None d] None show ?thesis by simp
  next
    case (Some p)
    obtain g rest where p: "p = (g, rest)" by (cases p) auto
    from Some p have cs: "c # cs = ''#$'' @ g @ ''$'' @ rest"
      using match_at_text by blast
    with "2.prems"(1) have d: "drop pos src = ''#$'' @ g @ ''$'' @ rest" by simp
    have "drop (pos + length g + 3) src = drop (length g + 3) (drop pos src)"
      by (simp add: ac_simps)
    moreover have "drop (length g + 3) (''#$'' @ g @ ''$'' @ rest) = rest"
      by (simp add: numeral_3_eq_3)
    ultimately have rest: "drop (pos + length g + 3) src = rest"
      using d by simp
    have later: "pos + length g + 3 \<le> fst y"
      if "y \<in> set (finditer_from (pos + length g + 3) rest)" for y
    proof -
      obtain a b m where y: "y = (a, b, m)" by (cases y) auto
      from finditer_from_spans[OF rest, of a b m] that y show ?thesis by simp
    qed
    from "2.IH"(2)[OF Some p[symmetric] rest] later Some p show ?thesis
      by simp
  qed
qed

lemma expansions_length: "expansions E ms cell = Inr (ts, c') \<Longrightarrow> length ts = length ms"
proof (induction ms arbitrary: cell ts)
  case Nil
  then show ?case by simp
next
  case (Cons m ms)
  obtain a b macro where m: "m = (a, b, macro)" by (cases m) auto
  from Cons.prems obtain t c1 ts1 where "expansions E ms c1 = Inr (ts1, c')" and "ts = t # ts1"
    by (auto simp: m split: sum.splits prod.splits)
  with Cons.IH show ?case by auto
qed

lemma dict_set_same: "dict_get d k = Some v \<Longrightarrow> dict_set d k v = d"
  by (simp add: dict_get_def dict_set_def update_triv)

text \<open>
  C5. For a cell whose source is the text \<open>src\<close>, the dispatcher's result is the cell
  with the source rebuilt as: the literal text before each match of the left-to-right
  scan, the text inserted for that match (possibly empty), and the literal tail after
  the last match; there is exactly one inserted text per match. The same weaving with
  each reference in place of its expansion gives \<open>src\<close> back, so the pieces between
  the matches are the whole non-macro text, unchanged. Every match spans its reference
  \<^verbatim>\<open>#$...$\<close> within the text, and each match ends before the next begins. A cell with
  no match is returned as it is.
\<close>

theorem process_cell_reconstruction:
  assumes "dict_get cell ''source'' = Some (PStr src)"
  shows "process_cell E cell =
           (case expansions E (finditer src) cell of
              Inl e \<Rightarrow> Inl e
            | Inr (ts, cell') \<Rightarrow>
                Inr (dict_set cell' ''source'' (PStr (rebuild src 0 (zip (finditer src) ts)))))
         \<and> (\<forall>ts cell'. expansions E (finditer src) cell = Inr (ts, cell')
               \<longrightarrow> length ts = length (finditer src))
         \<and> rebuild src 0 (zip (finditer src) (map reference (finditer src))) = src
         \<and> (\<forall>x \<in> set (finditer src).
               fst (snd x) \<le> length src \<and> slice src (fst x) (fst (snd x)) = reference x)
         \<and> sorted_wrt (\<lambda>x y. fst (snd x) \<le> fst y) (finditer src)
         \<and> (finditer src = [] \<longrightarrow> process_cell E cell = Inr cell)"
proof (intro conjI allI impI ballI)
  have "process_cell E cell =
          (case (case macro_loop E src (finditer src) cell [] 0 of
                   Inl e \<Rightarrow> Inl e
                 | Inr (c', ns', i') \<Rightarrow> Inr (c', ns' @ drop i' src)) of
             Inl e \<Rightarrow> Inl e
           | Inr (c', t) \<Rightarrow> Inr (dict_set c' ''source'' (PStr t)))"
    using assms by (simp add: process_cell_def split: sum.splits)
  also have "\<dots> = (case expansions E (finditer src) cell of
              Inl e \<Rightarrow> Inl e
            | Inr (ts, cell') \<Rightarrow>
                Inr (dict_set cell' ''source'' (PStr (rebuild src 0 (zip (finditer src) ts)))))"
    using macro_loop_expansions[where E = E and src = src and ms = "finditer src" and cell = cell
        and ns = "[]" and i = 0]
    by (auto split: sum.splits)
  finally show "process_cell E cell =
           (case expansions E (finditer src) cell of
              Inl e \<Rightarrow> Inl e
            | Inr (ts, cell') \<Rightarrow>
                Inr (dict_set cell' ''source'' (PStr (rebuild src 0 (zip (finditer src) ts)))))" .
next
  fix ts cell'
  assume "expansions E (finditer src) cell = Inr (ts, cell')"
  then show "length ts = length (finditer src)" by (rule expansions_length)
next
  show "rebuild src 0 (zip (finditer src) (map reference (finditer src))) = src"
    using rebuild_references[of 0 src src 0] by (simp add: finditer_def)
next
  fix x
  assume x: "x \<in> set (finditer src)"
  obtain a b m where "x = (a, b, m)" by (cases x) auto
  with x finditer_from_spans[of 0 src src a b m]
  show "fst (snd x) \<le> length src" and "slice src (fst x) (fst (snd x)) = reference x"
    by (auto simp: finditer_def reference_def)
next
  show "sorted_wrt (\<lambda>x y. fst (snd x) \<le> fst y) (finditer src)"
    using finditer_from_ordered[of 0 src src] by (simp add: finditer_def)
next
  assume "finditer src = []"
  with assms show "process_cell E cell = Inr cell"
    by (simp add: process_cell_def dict_set_same)
qed

theorem process_cell_reconstruction_witness:
  "process_cell sample_env (text_cell ''See #$HIDE$the #$TUTORIAL_URL(2)$ page.'')
     = Inr [(''cell_type'', PStr ''markdown''),
            (''metadata'', PDict [(''_kg_hide-input'', PBool True), (''_kg_hide-output'', PBool True)]),
            (''source'', PStr ''See the https://k/t2 page.'')]
   \<and> process_cell sample_env (text_cell ''No macro: $5 #$ and # done'')
       = Inr (text_cell ''No macro: $5 #$ and # done'')"
proof -
  have a: "dict_get (text_cell ''See #$HIDE$the #$TUTORIAL_URL(2)$ page.'') ''source''
             = Some (PStr ''See #$HIDE$the #$TUTORIAL_URL(2)$ page.'')"
    by (simp add: text_cell_def dict_get_def)
  have b: "dict_get (text_cell ''No macro: $5 #$ and # done'') ''source''
             = Some (PStr ''No macro: $5 #$ and # done'')"
    by (simp add: text_cell_def dict_get_def)
  have f: "finditer ''No macro: $5 #$ and # done'' = []"
    by code_simp
  have e: "(case expansions sample_env (finditer ''See #$HIDE$the #$TUTORIAL_URL(2)$ page.'')
                   (text_cell ''See #$HIDE$the #$TUTORIAL_URL(2)$ page.'') of
              Inl e \<Rightarrow> Inl e
            | Inr (ts, cell') \<Rightarrow>
                Inr (dict_set cell' ''source''
                       (PStr (rebuild ''See #$HIDE$the #$TUTORIAL_URL(2)$ page.'' 0
                                (zip (finditer ''See #$HIDE$the #$TUTORIAL_URL(2)$ page.'') ts)))))
           = Inr [(''cell_type'', PStr ''markdown''),
            (''metadata'', PDict [(''_kg_hide-input'', PBool True), (''_kg_hide-output'', PBool True)]),
            (''source'', PStr ''See the https://k/t2 page.'')]"
    by code_simp
  note r1 = process_cell_reconstruction[OF a, where E = sample_env, THEN conjunct1]
  note r2 = process_cell_reconstruction[OF b, where E = sample_env,
      THEN conjunct2, THEN conjunct2, THEN conjunct2, THEN conjunct2, THEN conjunct2,
      rule_format, OF f]
  from trans[OF r1 e] r2 show ?thesis by (rule conjI)
qed

subsection \<open>Lesson indexing in \<open>EXERCISE_URL\<close>\<close>

lemma py_int_2: "py_int ''2'' = Some 2"
  by code_simp

lemma EXERCISE_URL_index:
  "py_int lesson_num = Some n \<Longrightarrow>
     EXERCISE_URL E [lesson_num] cell
       = returns (case py_index (lessons (track E)) (n - 1) of Inl e \<Rightarrow> Inl e | Inr l \<Rightarrow> forking_url l) cell"
  by (simp add: EXERCISE_URL_def track_lesson_def)

text \<open>
  C6, as the code has it. For an argument that reads as the integer \<open>n\<close>, on a track of
  \<open>len\<close> lessons: from 1 to \<open>len\<close> the operation returns the exercise forking URL of
  \<open>lessons[n - 1]\<close>, so the argument 2 on a track of at least two lessons gives that of
  \<open>lessons[1]\<close>; an argument from \<open>1 - len\<close> to 0 is not refused: the index \<open>n - 1\<close> is
  negative and reads from the back, \<open>lessons[len + n - 1]\<close> (the argument 0 gives the last
  lesson); only an argument of at most \<open>- len\<close> or above \<open>len\<close> raises IndexError.
\<close>

theorem EXERCISE_URL_lesson_index:
  assumes "py_int lesson_num = Some n"
  shows "(1 \<le> n \<and> n \<le> int (length (lessons (track E))) \<longrightarrow>
            EXERCISE_URL E [lesson_num] cell
              = returns (forking_url (lessons (track E) ! nat (n - 1))) cell)
         \<and> (n \<le> 0 \<and> - int (length (lessons (track E))) < n \<longrightarrow>
            EXERCISE_URL E [lesson_num] cell
              = returns (forking_url (lessons (track E) ! nat (int (length (lessons (track E))) + n - 1))) cell)
         \<and> (n \<le> - int (length (lessons (track E))) \<or> int (length (lessons (track E))) < n \<longrightarrow>
            EXERCISE_URL E [lesson_num] cell = Inl IndexError)
         \<and> (2 \<le> length (lessons (track E)) \<and> exercise (lessons (track E) ! 1) = Some u \<longrightarrow>
            EXERCISE_URL E [''2''] cell = Inr (PStr u, cell))"
proof (intro conjI impI)
  assume "1 \<le> n \<and> n \<le> int (length (lessons (track E)))"
  then show "EXERCISE_URL E [lesson_num] cell
              = returns (forking_url (lessons (track E) ! nat (n - 1))) cell"
    using EXERCISE_URL_index[OF assms, of E cell] by (simp add: py_index_def)
next
  assume "n \<le> 0 \<and> - int (length (lessons (track E))) < n"
  then show "EXERCISE_URL E [lesson_num] cell
              = returns (forking_url (lessons (track E) ! nat (int (length (lessons (track E))) + n - 1))) cell"
    using EXERCISE_URL_index[OF assms, of E cell] by (simp add: py_index_def algebra_simps)
next
  assume "n \<le> - int (length (lessons (track E))) \<or> int (length (lessons (track E))) < n"
  then show "EXERCISE_URL E [lesson_num] cell = Inl IndexError"
    using EXERCISE_URL_index[OF assms, of E cell] by (auto simp: py_index_def returns_def)
next
  assume "2 \<le> length (lessons (track E)) \<and> exercise (lessons (track E) ! 1) = Some u"
  then show "EXERCISE_URL E [''2''] cell = Inr (PStr u, cell)"
    using EXERCISE_URL_index[OF py_int_2, of E cell]
    by (simp add: py_index_def returns_def forking_url_def)
qed

text \<open>
  The claim's second half fails: on the sample track of two lessons the argument 0
  returns the last lesson's URL and the argument -1 the first lesson's, with no error.
\<close>

theorem EXERCISE_URL_zero_counterexample:
  "EXERCISE_URL sample_env [''0''] (text_cell []) = Inr (PStr ''https://k/e2'', text_cell [])
   \<and> EXERCISE_URL sample_env [''-1''] (text_cell []) = Inr (PStr ''https://k/e1'', text_cell [])"
  by code_simp

theorem EXERCISE_URL_lesson_index_witness:
  "EXERCISE_URL sample_env [''2''] (text_cell []) = Inr (PStr ''https://k/e2'', text_cell [])
   \<and> EXERCISE_URL sample_env [''0''] (text_cell []) = Inr (PStr ''https://k/e2'', text_cell [])
   \<and> EXERCISE_URL sample_env [''-2''] (text_cell []) = Inl IndexError"
proof -
  have p0: "py_int ''0'' = Some 0" by code_simp
  have p2: "py_int ''-2'' = Some (- 2)" by code_simp
  have len: "length (lessons (track sample_env)) = 2"
    by (simp add: sample_env_def sample_track_def)
  have ex: "exercise (lessons (track sample_env) ! 1) = Some ''https://k/e2''"
    by (simp add: sample_env_def sample_track_def)
  from EXERCISE_URL_lesson_index[OF p0, of sample_env "text_cell []" "''https://k/e2''"]
       EXERCISE_URL_lesson_index[OF p2, of sample_env "text_cell []" "''https://k/e2''"]
       len ex
  show ?thesis by (simp add: returns_def forking_url_def)
qed

subsection \<open>The text of \<open>KEEP_GOING\<close>\<close>

text \<open>
  C7. When \<open>cfg\<close> has a truthy \<open>daily\<close>, \<open>KEEP_GOING\<close> returns a text that contains
  "another email tomorrow", whatever the lesson is (even none). Otherwise, when the
  current lesson has a next lesson, it returns the framing text with the next lesson's
  topic and its tutorial URL if it has a tutorial, and with its exercise forking URL if
  it has none.
\<close>

theorem KEEP_GOING_text:
  "(truthy (get_default (cfg E) ''daily'' PNone) \<longrightarrow>
      (\<exists>pre post. KEEP_GOING E [] cell = Inr (PStr (pre @ ''another email tomorrow'' @ post), cell)))
   \<and> (\<not> truthy (get_default (cfg E) ''daily'' PNone) \<and> lesson E = Some l \<and> next_lesson l = Some nl \<longrightarrow>
        (tutorial nl = Some u \<longrightarrow>
           KEEP_GOING E [] cell
             = Inr (PStr (''# Keep Going\<newline>\<newline>You are ready for **['' @ topic nl @ '']('' @ u @ '').**\<newline>''), cell))
        \<and> (tutorial nl = None \<and> exercise nl = Some u \<longrightarrow>
           KEEP_GOING E [] cell
             = Inr (PStr (''# Keep Going\<newline>\<newline>You are ready for **['' @ topic nl @ '']('' @ u @ '').**\<newline>''), cell)))"
proof (intro conjI impI)
  assume "truthy (get_default (cfg E) ''daily'' PNone)"
  then have "KEEP_GOING E [] cell
               = Inr (PStr (''\<newline>**You'll get '' @ ''another email tomorrow'' @ '' so you can keep learning. See you then.**''), cell)"
    by (simp add: KEEP_GOING_def)
  then show "\<exists>pre post. KEEP_GOING E [] cell = Inr (PStr (pre @ ''another email tomorrow'' @ post), cell)"
    by blast
next
  assume "\<not> truthy (get_default (cfg E) ''daily'' PNone) \<and> lesson E = Some l \<and> next_lesson l = Some nl"
    and "tutorial nl = Some u"
  then show "KEEP_GOING E [] cell
             = Inr (PStr (''# Keep Going\<newline>\<newline>You are ready for **['' @ topic nl @ '']('' @ u @ '').**\<newline>''), cell)"
    by (simp add: KEEP_GOING_def self_lesson_def returns_def)
next
  assume "\<not> truthy (get_default (cfg E) ''daily'' PNone) \<and> lesson E = Some l \<and> next_lesson l = Some nl"
    and "tutorial nl = None \<and> exercise nl = Some u"
  then show "KEEP_GOING E [] cell
             = Inr (PStr (''# Keep Going\<newline>\<newline>You are ready for **['' @ topic nl @ '']('' @ u @ '').**\<newline>''), cell)"
    by (simp add: KEEP_GOING_def self_lesson_def returns_def forking_url_def)
qed

theorem KEEP_GOING_text_witness:
  "(\<exists>pre post. KEEP_GOING daily_env [] (text_cell [])
       = Inr (PStr (pre @ ''another email tomorrow'' @ post), text_cell []))
   \<and> KEEP_GOING sample_env [] (text_cell [])
       = Inr (PStr ''# Keep Going\<newline>\<newline>You are ready for **[Functions](https://k/t2).**\<newline>'', text_cell [])"
proof -
  have d: "truthy (get_default (cfg daily_env) ''daily'' PNone)"
    by (simp add: daily_env_def get_default_def)
  have s: "\<not> truthy (get_default (cfg sample_env) ''daily'' PNone)
           \<and> lesson sample_env = Some (hd (lessons sample_track))
           \<and> next_lesson (hd (lessons sample_track))
               = Some (Lesson ''Functions'' (Some ''https://k/t2'') (Some ''https://k/e2'') True None)"
    by (simp add: sample_env_def sample_track_def get_default_def)
  from KEEP_GOING_text[where E = daily_env and cell = "text_cell []", THEN conjunct1, rule_format, OF d]
       KEEP_GOING_text[where E = sample_env and l = "hd (lessons sample_track)"
         and nl = "Lesson ''Functions'' (Some ''https://k/t2'') (Some ''https://k/e2'') True None"
         and u = "''https://k/t2''" and cell = "text_cell []",
         THEN conjunct2, rule_format, OF s, THEN conjunct1]
  show ?thesis by simp
qed

subsection \<open>\<open>Nominatim.geocode\<close>\<close>

lemma list_index_Some:
  "distinct xs \<Longrightarrow> list_index xs x = Some i \<longleftrightarrow> i < length xs \<and> xs ! i = x"
proof (induction xs arbitrary: i)
  case Nil
  show ?case by simp
next
  case (Cons y ys)
  from Cons.prems have d: "distinct ys" and y: "y \<notin> set ys" by simp_all
  show ?case
  proof (cases "y = x")
    case True
    with y have "(i < length (y # ys) \<and> (y # ys) ! i = x) \<longleftrightarrow> i = 0"
      by (cases i) (auto simp: in_set_conv_nth)
    with True show ?thesis by auto
  next
    case False
    then show ?thesis
      using Cons.IH[OF d] by (cases i) auto
  qed
qed

lemma list_index_None: "x \<notin> set xs \<Longrightarrow> list_index xs x = None"
  by (induction xs) auto

lemma all_addresses_distinct: "distinct all_addresses \<and> length all_addresses = 5"
  by (simp add: all_addresses_def)

text \<open>
  C10. \<open>geocode\<close> returns a point exactly when the address is one of the five entries
  of \<open>all_addresses\<close>, the shapefile named after the entry's position loads and the point
  is built from it; for any other address, and whenever one of the two library calls
  raises, it returns None. It is a total function into an option: no exception leaves it.
\<close>

theorem geocode_result:
  "(geocode read_file Point address = Some p \<longleftrightarrow>
      (\<exists>i gdf. i < 5 \<and> all_addresses ! i = address
         \<and> read_file (''../input/geospatial-learn-course-data/ex4_files/ex4_files/add_''
                       @ str_nat i @ ''.shp'') = Inr gdf
         \<and> Point gdf = Inr p))
   \<and> (address \<notin> set all_addresses \<longrightarrow> geocode read_file Point address = None)"
proof -
  have idx: "list_index all_addresses address = Some i \<longleftrightarrow> i < 5 \<and> all_addresses ! i = address"
    for i
    using list_index_Some[of all_addresses address i] all_addresses_distinct by simp
  have none: "address \<notin> set all_addresses \<Longrightarrow> list_index all_addresses address = None"
    by (rule list_index_None)
  show ?thesis
  proof (intro conjI impI iffI)
    assume "geocode read_file Point address = Some p"
    then obtain i gdf where "list_index all_addresses address = Some i"
      and "read_file (''../input/geospatial-learn-course-data/ex4_files/ex4_files/add_''
                       @ str_nat i @ ''.shp'') = Inr gdf" and "Point gdf = Inr p"
      by (auto simp: geocode_def split: option.splits sum.splits)
    with idx show "\<exists>i gdf. i < 5 \<and> all_addresses ! i = address
         \<and> read_file (''../input/geospatial-learn-course-data/ex4_files/ex4_files/add_''
                       @ str_nat i @ ''.shp'') = Inr gdf
         \<and> Point gdf = Inr p"
      by blast
  next
    assume "\<exists>i gdf. i < 5 \<and> all_addresses ! i = address
         \<and> read_file (''../input/geospatial-learn-course-data/ex4_files/ex4_files/add_''
                       @ str_nat i @ ''.shp'') = Inr gdf
         \<and> Point gdf = Inr p"
    then obtain i gdf where "i < 5 \<and> all_addresses ! i = address"
      and r: "read_file (''../input/geospatial-learn-course-data/ex4_files/ex4_files/add_''
                       @ str_nat i @ ''.shp'') = Inr gdf" "Point gdf = Inr p"
      by blast
    with idx have "list_index all_addresses address = Some i" by blast
    with r show "geocode read_file Point address = Some p"
      by (simp add: geocode_def)
  next
    assume "address \<notin> set all_addresses"
    then show "geocode read_file Point address = None"
      by (simp add: geocode_def none)
  qed
qed

theorem geocode_result_witness:
  "geocode (\<lambda>path. if path = ''../input/geospatial-learn-course-data/ex4_files/ex4_files/add_2.shp''
                     then Inr (1 :: int, 2 :: int) else Inl (OtherError ''no such file''))
           (\<lambda>(x, y). Inr (y, x)) ''1444 Shattuck Place Berkeley CA'' = Some (2, 1)
   \<and> geocode (\<lambda>path. Inr (1 :: int, 2 :: int)) (\<lambda>(x, y). Inr (y, x)) ''1 Main Street'' = None"
proof -
  have a: "(2 :: nat) < 5 \<and> all_addresses ! 2 = ''1444 Shattuck Place Berkeley CA''"
    by (simp add: all_addresses_def)
  have n: "''1 Main Street'' \<notin> set all_addresses"
    by (simp add: all_addresses_def)
  have s: "str_nat 2 = ''2''"
    by code_simp
  let ?rf = "\<lambda>path. if path = ''../input/geospatial-learn-course-data/ex4_files/ex4_files/add_2.shp''
                     then Inr (1 :: int, 2 :: int) else Inl (OtherError ''no such file'')"
  have "\<exists>i gdf. i < 5 \<and> all_addresses ! i = ''1444 Shattuck Place Berkeley CA''
         \<and> ?rf (''../input/geospatial-learn-course-data/ex4_files/ex4_files/add_''
                       @ str_nat i @ ''.shp'') = Inr gdf
         \<and> (\<lambda>(x, y). Inr (y, x) :: error + int \<times> int) gdf = Inr (2, 1)"
    using a s by (intro exI[of _ 2] exI[of _ "(1, 2)"]) simp
  with geocode_result[where read_file = ?rf and Point = "\<lambda>(x, y). Inr (y, x)"
        and address = "''1444 Shattuck Place Berkeley CA''" and p = "(2, 1)", THEN conjunct1]
  have one: "geocode ?rf (\<lambda>(x, y). Inr (y, x)) ''1444 Shattuck Place Berkeley CA'' = Some (2, 1)"
    by blast
  from geocode_result[where read_file = "\<lambda>path. Inr (1 :: int, 2 :: int)" and Point = "\<lambda>(x, y). Inr (y, x)"
        and address = "''1 Main Street''", THEN conjunct2, rule_format, OF n]
  have two: "geocode (\<lambda>path. Inr (1 :: int, 2 :: int)) (\<lambda>(x, y). Inr (y, x)) ''1 Main Street'' = None" .
  from one two show ?thesis by (rule conjI)
qed

subsection \<open>What the dispatcher returns for a cell\<close>

lemma set_dropWhile_cover: "set xs \<subseteq> set (dropWhile P xs) \<union> {x. P x}"
proof -
  have "set xs = set (takeWhile P xs) \<union> set (dropWhile P xs)"
    by (metis set_append takeWhile_dropWhile_id)
  moreover have "set (takeWhile P xs) \<subseteq> {x. P x}"
    by (auto dest: set_takeWhileD)
  ultimately show ?thesis by auto
qed

lemma set_strip_cover: "set s \<subseteq> set (strip s) \<union> {c. is_space c}"
proof -
  have "set s \<subseteq> set (dropWhile is_space s) \<union> {c. is_space c}"
    by (rule set_dropWhile_cover)
  moreover have "set (rev (dropWhile is_space s))
      \<subseteq> set (dropWhile is_space (rev (dropWhile is_space s))) \<union> {c. is_space c}"
    by (rule set_dropWhile_cover)
  ultimately show ?thesis
    unfolding strip_def by auto
qed

lemma finditer_from_no_dollar: "CHR ''$'' \<notin> set s \<Longrightarrow> finditer_from pos s = []"
proof (induction pos s rule: finditer_from.induct)
  case (1 pos)
  show ?case by simp
next
  case (2 pos c cs)
  have "match_at (c # cs) = None"
  proof (cases "match_at (c # cs)")
    case None
    then show ?thesis .
  next
    case (Some p)
    obtain g rest where "p = (g, rest)" by (cases p) auto
    with Some have "c # cs = ''#$'' @ g @ ''$'' @ rest"
      using match_at_text by blast
    then have "CHR ''$'' \<in> set (c # cs)" by simp
    with "2.prems" show ?thesis by simp
  qed
  moreover from "2.prems" have "CHR ''$'' \<notin> set cs" by simp
  ultimately show ?case using "2.IH"(1) by simp
qed

lemma sentinel_no_match:
  assumes "strip src = ''#%%RM_BELOW%%''"
  shows "finditer src = []"
proof -
  have "CHR ''$'' \<notin> set (strip src)"
    unfolding assms by simp
  moreover have "\<not> is_space (CHR ''$'')"
    by (simp add: is_space_def)
  ultimately have "CHR ''$'' \<notin> set src"
    using set_strip_cover[of src] by auto
  then show ?thesis
    unfolding finditer_def by (rule finditer_from_no_dollar)
qed

lemma dict_get_set: "dict_get (dict_set d k v) k = Some v"
  by (simp add: dict_get_def dict_set_def update_conv')

text \<open>
  C9, as the code has it. \<open>process_cell\<close> has no result that stands for a dropped cell:
  when it returns, it returns a cell whose \<open>source\<close> is a text. On a cell whose trimmed
  source is the marker it returns the cell as it is; the cell is dropped by the scan of
  \<open>preprocess\<close>, which stops at the marker before it calls the dispatcher.
\<close>

theorem process_cell_never_drops:
  "(process_cell E cell = Inr c' \<longrightarrow> (\<exists>t. dict_get c' ''source'' = Some (PStr t)))
   \<and> (is_sentinel s \<longrightarrow>
        process_cell E s = Inr s \<and> scan_cells E (s # post) new_cells = Inr new_cells)"
proof (intro conjI impI)
  assume "process_cell E cell = Inr c'"
  then obtain c t where "c' = dict_set c ''source'' (PStr t)"
    by (auto simp: process_cell_def split: option.splits pyval.splits sum.splits)
  then show "\<exists>t. dict_get c' ''source'' = Some (PStr t)"
    by (auto simp: dict_get_set)
next
  assume s: "is_sentinel s"
  then obtain src where src: "dict_get s ''source'' = Some (PStr src)"
    and m: "strip src = ''#%%RM_BELOW%%''"
    by (auto simp: is_sentinel_def split: option.splits pyval.splits)
  from src sentinel_no_match[OF m] show "process_cell E s = Inr s"
    by (simp add: process_cell_def dict_set_same)
  from s show "scan_cells E (s # post) new_cells = Inr new_cells"
    by (rule scan_cells_sentinel)
qed

text \<open>
  The claim fails at the marker cell: the dispatcher returns it, and does not signal that
  it is to be dropped.
\<close>

theorem process_cell_marker_counterexample:
  "is_sentinel (text_cell ''#%%RM_BELOW%%'')
   \<and> process_cell sample_env (text_cell ''#%%RM_BELOW%%'') = Inr (text_cell ''#%%RM_BELOW%%'')"
  by code_simp

theorem process_cell_never_drops_witness:
  "process_cell sample_env (text_cell '' #%%RM_BELOW%% '') = Inr (text_cell '' #%%RM_BELOW%% '')
   \<and> scan_cells sample_env [text_cell '' #%%RM_BELOW%% '', text_cell ''C''] [text_cell ''A'']
       = Inr [text_cell ''A'']
   \<and> (\<exists>t. dict_get (text_cell ''Intro'') ''source'' = Some (PStr t))"
proof -
  have s: "is_sentinel (text_cell '' #%%RM_BELOW%% '')"
    by code_simp
  have p: "process_cell sample_env (text_cell ''Intro'') = Inr (text_cell ''Intro'')"
    by code_simp
  from process_cell_never_drops[where E = sample_env and s = "text_cell '' #%%RM_BELOW%% ''"
      and post = "[text_cell ''C'']" and new_cells = "[text_cell ''A'']"
      and cell = "text_cell ''Intro''" and c' = "text_cell ''Intro''"] s p
  show ?thesis by simp
qed

subsection \<open>Resolution of macro names and unknown macros\<close>

lemma expand_macro_unresolved:
  assumes "parse_macro macro = Inr (name, args)" and "getattr_self E name = None"
  shows "expand_macro E macro cell = Inl (UnrecognizedMacroException name)"
proof -
  from assms(2) have "name \<noteq> ''expand_macro''"
    by (auto simp: getattr_self_def pipeline_names_def macro_names_def)
  with assms show ?thesis
    by (subst expand_macro.simps) simp
qed

lemma expand_macro_builtin:
  assumes "parse_macro macro = Inr (name, args)" and "name \<in> set macro_names"
    and "builtin E name = Some operation"
  shows "expand_macro E macro cell = operation args cell"
proof -
  from assms(2) have "name \<noteq> ''expand_macro''"
    by (auto simp: macro_names_def)
  with assms show ?thesis
    by (subst expand_macro.simps) (simp add: getattr_self_def)
qed

lemma builtin_table:
  "map (builtin E) macro_names =
     [Some (EXERCISE_FORKING_URL E), Some (HIDE_INPUT E), Some (HIDE_OUTPUT E), Some (HIDE E),
      Some (YOURTURN E), Some (TUT_BETA_NOTE E), Some (EXERCISE_SETUP E), Some (TUTORIAL_URL E),
      Some (EXERCISE_URL E), Some (EXERCISE_PREAMBLE E), Some (KEEP_GOING E),
      Some (END_OF_EMB_EXERCISE E)]"
  by (simp add: macro_names_def builtin_def)

lemma builtin_resolves: "name \<in> set macro_names \<Longrightarrow> builtin E name \<noteq> None"
  by (auto simp: macro_names_def builtin_def)

lemma getattr_self_None:
  "getattr_self E name = None \<longleftrightarrow>
     name \<notin> set macro_names \<and> name \<notin> set pipeline_names \<and> name \<noteq> ''track'' \<and> name \<noteq> ''cfg''
     \<and> (if name = ''lesson'' then lesson E = None else inherited E name = None)"
  using builtin_resolves[of name E]
  by (auto simp: getattr_self_def split: option.splits)

text \<open>
  C3, as the code has it. A macro name is resolved by exact name among the attributes of
  the preprocessor object. Each of the twelve built-in names resolves to its operation,
  which is called with the parsed arguments. A name fails to resolve exactly when it is
  none of the twelve, none of the other methods of the class, neither \<open>track\<close> nor
  \<open>cfg\<close>, not \<open>lesson\<close> unless the pass has no lesson, and no attribute the base class
  provides; for such a name \<open>expand_macro\<close> raises the unrecognized-macro exception with
  that name. The other attributes resolve and are called like a macro.
\<close>

theorem macro_resolution:
  "map (builtin E) macro_names =
     [Some (EXERCISE_FORKING_URL E), Some (HIDE_INPUT E), Some (HIDE_OUTPUT E), Some (HIDE E),
      Some (YOURTURN E), Some (TUT_BETA_NOTE E), Some (EXERCISE_SETUP E), Some (TUTORIAL_URL E),
      Some (EXERCISE_URL E), Some (EXERCISE_PREAMBLE E), Some (KEEP_GOING E),
      Some (END_OF_EMB_EXERCISE E)]
   \<and> (parse_macro macro = Inr (name, args) \<and> name \<in> set macro_names \<and> builtin E name = Some operation
        \<longrightarrow> expand_macro E macro cell = operation args cell)
   \<and> (getattr_self E name = None \<longleftrightarrow>
        name \<notin> set macro_names \<and> name \<notin> set pipeline_names \<and> name \<noteq> ''track'' \<and> name \<noteq> ''cfg''
        \<and> (if name = ''lesson'' then lesson E = None else inherited E name = None))
   \<and> (parse_macro macro = Inr (name, args) \<and> getattr_self E name = None
        \<longrightarrow> expand_macro E macro cell = Inl (UnrecognizedMacroException name))"
  using builtin_table[of E] expand_macro_builtin[of macro name args E operation cell]
    getattr_self_None[of E name] expand_macro_unresolved[of macro name args E cell]
  by blast

text \<open>
  The claim fails for names outside the table that are attributes of the object: the
  method \<open>make_cell\<close> and the binding \<open>track\<close> resolve, and the call raises TypeError.
\<close>

theorem macro_resolution_counterexample:
  "''make_cell'' \<notin> set macro_names
   \<and> expand_macro sample_env ''make_cell'' (text_cell ''x'') = Inl TypeError
   \<and> ''track'' \<notin> set macro_names
   \<and> expand_macro sample_env ''track'' (text_cell ''x'') = Inl TypeError"
  by code_simp

theorem macro_resolution_witness:
  "expand_macro sample_env ''HIDE_INPUT'' (text_cell ''x'')
     = Inr (PNone, [(''cell_type'', PStr ''markdown''),
                    (''metadata'', PDict [(''_kg_hide-input'', PBool True)]),
                    (''source'', PStr ''x'')])
   \<and> expand_macro sample_env ''hide_input'' (text_cell ''x'')
       = Inl (UnrecognizedMacroException ''hide_input'')"
proof -
  have p1: "parse_macro ''HIDE_INPUT'' = Inr (''HIDE_INPUT'', [])
            \<and> ''HIDE_INPUT'' \<in> set macro_names
            \<and> builtin sample_env ''HIDE_INPUT'' = Some (HIDE_INPUT sample_env)"
    by (simp add: parse_macro_def endswith_def macro_names_def builtin_def)
  have p2: "parse_macro ''hide_input'' = Inr (''hide_input'', [])
            \<and> getattr_self sample_env ''hide_input'' = None"
    by (simp add: parse_macro_def endswith_def getattr_self_def macro_names_def pipeline_names_def
        sample_env_def)
  have h: "HIDE_INPUT sample_env [] (text_cell ''x'')
             = Inr (PNone, [(''cell_type'', PStr ''markdown''),
                    (''metadata'', PDict [(''_kg_hide-input'', PBool True)]),
                    (''source'', PStr ''x'')])"
    by code_simp
  from macro_resolution[where E = sample_env and macro = "''HIDE_INPUT''" and name = "''HIDE_INPUT''"
        and args = "[]" and operation = "HIDE_INPUT sample_env" and cell = "text_cell ''x''",
        THEN conjunct2, THEN conjunct1, rule_format, OF p1]
      macro_resolution[where E = sample_env and macro = "''hide_input''" and name = "''hide_input''"
        and args = "[]" and cell = "text_cell ''x''",
        THEN conjunct2, THEN conjunct2, THEN conjunct2, rule_format, OF p2]
      h
  show ?thesis by simp
qed


lemma macro_loop_append:
  "macro_loop E src (xs @ ys) cell ns i =
     (case macro_loop E src xs cell ns i of
        Inl e \<Rightarrow> Inl e
      | Inr (c, n, j) \<Rightarrow> macro_loop E src ys c n j)"
proof (induction xs arbitrary: cell ns i)
  case Nil
  show ?case by simp
next
  case (Cons m xs)
  obtain a b macro where m: "m = (a, b, macro)" by (cases m) auto
  show ?case
    by (auto simp: m Cons.IH split: sum.splits)
qed

lemma scan_cells_prefix:
  "\<forall>c \<in> set pre. \<not> is_sentinel c \<Longrightarrow> scan_cells E pre acc = Inr acc' \<Longrightarrow>
     scan_cells E (pre @ rest) acc = scan_cells E rest acc'"
proof (induction pre arbitrary: acc)
  case Nil
  then show ?case by simp
next
  case (Cons c pre)
  from Cons.prems(1) have c: "\<not> is_sentinel c" and pre: "\<forall>c \<in> set pre. \<not> is_sentinel c"
    by simp_all
  from Cons.prems(2) obtain src where src: "dict_get c ''source'' = Some (PStr src)"
    by (auto split: option.splits pyval.splits)
  with c have ns: "strip src \<noteq> ''#%%RM_BELOW%%''"
    by (simp add: is_sentinel_def)
  from Cons.prems(2) src ns obtain pc where pc: "process_cell E c = Inr pc"
    by (auto split: sum.splits)
  from Cons.prems(2) src ns pc obtain kept
    where kept: "(if truthy (PDict pc) then macroer E pc else Inr (Some pc)) = Inr kept"
    by (auto split: sum.splits)
  show ?case
  proof (cases kept)
    case None
    with Cons.prems(2) src ns pc kept have "scan_cells E pre acc = Inr acc'"
      by simp
    from Cons.IH[OF pre this] src ns pc kept None show ?thesis
      by simp
  next
    case (Some c')
    with Cons.prems(2) src ns pc kept have "scan_cells E pre (acc @ [c']) = Inr acc'"
      by simp
    from Cons.IH[OF pre this] src ns pc kept Some show ?thesis
      by simp
  qed
qed

lemma try_expand_unresolved:
  assumes "parse_macro macro = Inr (name, args)" and "getattr_self E name = None"
  shows "try_expand E macro cell =
           (if ignore_unknown_macros E then Inr (PNone, cell)
            else Inl (UnrecognizedMacroException name))"
  using expand_macro_unresolved[OF assms, of cell] by (simp add: try_expand_def)

lemma single_reference_text:
  assumes "finditer src = [(a, b, macro)]"
  shows "src = take a src @ ''#$'' @ macro @ ''$'' @ drop b src"
  using rebuild_references[of 0 src src 0] assms
  by (simp add: finditer_def reference_def slice_def)

lemma reference_cell_not_sentinel:
  assumes "dict_get cell ''source'' = Some (PStr src)" and "finditer src \<noteq> []"
  shows "strip src \<noteq> ''#%%RM_BELOW%%''"
  using sentinel_no_match[of src] assms(2) by blast

text \<open>
  C2, as the code has it. Take a cell whose text holds a reference whose parsed name
  resolves to no attribute of the preprocessor object. With the flag off (the default), if
  the references before it in the cell expand, the dispatcher raises the
  unrecognized-macro exception with the parsed name, and every pass whose scan reaches
  the cell (no marker cell before it, and the cells before it scanned without an
  exception) ends with that exception. With the flag on, the
  reference contributes the empty text and leaves the cell as it is; when it is the
  cell's only reference, the dispatcher returns the cell with exactly that reference cut
  out of the source and the rest of the text unchanged.
\<close>

theorem unrecognized_macro_policy:
  assumes "dict_get cell ''source'' = Some (PStr src)"
    and "finditer src = before @ (a, b, macro) # after"
    and "parse_macro macro = Inr (name, args)"
    and "getattr_self E name = None"
  shows "(\<not> ignore_unknown_macros E \<and> macro_loop E src before cell [] 0 = Inr (c1, ns1, i1) \<longrightarrow>
            process_cell E cell = Inl (UnrecognizedMacroException name)
            \<and> ((\<forall>c \<in> set pre. \<not> is_sentinel c) \<and> scan_cells E pre [] = Inr new_cells \<longrightarrow>
                 preprocess E (pre @ cell # rest) nb_type = Inl (UnrecognizedMacroException name)))
         \<and> (ignore_unknown_macros E \<longrightarrow> inserted_text E macro c = Inr ([], c))
         \<and> (ignore_unknown_macros E \<and> before = [] \<and> after = [] \<longrightarrow>
              process_cell E cell = Inr (dict_set cell ''source'' (PStr (take a src @ drop b src)))
              \<and> src = take a src @ ''#$'' @ macro @ ''$'' @ drop b src)"
proof (intro conjI impI)
  assume s: "\<not> ignore_unknown_macros E \<and> macro_loop E src before cell [] 0 = Inr (c1, ns1, i1)"
  then have "macro_loop E src (before @ (a, b, macro) # after) cell [] 0
               = Inl (UnrecognizedMacroException name)"
    by (simp add: macro_loop_append try_expand_unresolved[OF assms(3,4)])
  with assms(1,2) show p: "process_cell E cell = Inl (UnrecognizedMacroException name)"
    by (simp add: process_cell_def)
  assume pre: "(\<forall>c \<in> set pre. \<not> is_sentinel c) \<and> scan_cells E pre [] = Inr new_cells"
  from assms(2) have "finditer src \<noteq> []" by simp
  from reference_cell_not_sentinel[OF assms(1) this] assms(1) p
  have "scan_cells E (cell # rest) new_cells = Inl (UnrecognizedMacroException name)"
    by simp
  with scan_cells_prefix[OF conjunct1[OF pre] conjunct2[OF pre], of "cell # rest"]
  show "preprocess E (pre @ cell # rest) nb_type = Inl (UnrecognizedMacroException name)"
    by (simp add: preprocess_def)
next
  assume "ignore_unknown_macros E"
  then show "inserted_text E macro c = Inr ([], c)"
    by (simp add: inserted_text_def try_expand_unresolved[OF assms(3,4)] add_expansion_def)
next
  assume i: "ignore_unknown_macros E \<and> before = [] \<and> after = []"
  with assms(2) have f: "finditer src = [(a, b, macro)]" by simp
  from i have "macro_loop E src [(a, b, macro)] cell [] 0 = Inr (cell, slice src 0 a, b)"
    by (simp add: try_expand_unresolved[OF assms(3,4)] add_expansion_def)
  with assms(1) f
  show "process_cell E cell = Inr (dict_set cell ''source'' (PStr (take a src @ drop b src)))"
    by (simp add: process_cell_def slice_def)
  from f show "src = take a src @ ''#$'' @ macro @ ''$'' @ drop b src"
    by (rule single_reference_text)
qed

text \<open>
  The claim fails for a name that is not a built-in operation but is an attribute:
  \<open>preprocess\<close> resolves, the call raises TypeError, and it does so with the flag on too.
\<close>

theorem unrecognized_macro_counterexample:
  "''preprocess'' \<notin> set macro_names
   \<and> \<not> ignore_unknown_macros sample_env
   \<and> process_cell sample_env (text_cell ''Intro #$preprocess$ end'') = Inl TypeError
   \<and> ignore_unknown_macros permissive_env
   \<and> process_cell permissive_env (text_cell ''Intro #$preprocess$ end'') = Inl TypeError"
  by code_simp

theorem unrecognized_macro_policy_witness:
  "process_cell sample_env (text_cell ''Intro #$NO_SUCH(1)$ end'')
     = Inl (UnrecognizedMacroException ''NO_SUCH'')
   \<and> preprocess sample_env
         [text_cell ''A #$HIDE$'', text_cell ''Intro #$NO_SUCH(1)$ end'', text_cell ''B''] ''tutorial''
       = Inl (UnrecognizedMacroException ''NO_SUCH'')
   \<and> process_cell permissive_env (text_cell ''Intro #$NO_SUCH(1)$ end'')
       = Inr (text_cell ''Intro  end'')"
proof -
  have src: "dict_get (text_cell ''Intro #$NO_SUCH(1)$ end'') ''source''
               = Some (PStr ''Intro #$NO_SUCH(1)$ end'')"
    by (simp add: text_cell_def dict_get_def)
  have f: "finditer ''Intro #$NO_SUCH(1)$ end'' = [] @ (6, 19, ''NO_SUCH(1)'') # []"
    by code_simp
  have p: "parse_macro ''NO_SUCH(1)'' = Inr (''NO_SUCH'', [''1''])"
    by code_simp
  have g: "getattr_self sample_env ''NO_SUCH'' = None" "getattr_self permissive_env ''NO_SUCH'' = None"
    by (simp_all add: getattr_self_def macro_names_def pipeline_names_def sample_env_def
        permissive_env_def)
  have strict: "\<not> ignore_unknown_macros sample_env
      \<and> macro_loop sample_env ''Intro #$NO_SUCH(1)$ end'' [] (text_cell ''Intro #$NO_SUCH(1)$ end'') [] 0
          = Inr (text_cell ''Intro #$NO_SUCH(1)$ end'', [], 0)"
    by (simp add: sample_env_def)
  have pre: "(\<forall>c \<in> set [text_cell ''A #$HIDE$'']. \<not> is_sentinel c)
      \<and> scan_cells sample_env [text_cell ''A #$HIDE$''] []
          = Inr [[(''cell_type'', PStr ''markdown''),
                  (''metadata'', PDict [(''_kg_hide-input'', PBool True), (''_kg_hide-output'', PBool True)]),
                  (''source'', PStr ''A '')]]"
    by code_simp
  have perm: "ignore_unknown_macros permissive_env \<and> ([] :: (nat \<times> nat \<times> string) list) = []
      \<and> ([] :: (nat \<times> nat \<times> string) list) = []"
    by (simp add: permissive_env_def)
  have upd: "dict_set (text_cell ''Intro #$NO_SUCH(1)$ end'') ''source''
               (PStr (take 6 ''Intro #$NO_SUCH(1)$ end'' @ drop 19 ''Intro #$NO_SUCH(1)$ end''))
             = text_cell ''Intro  end''"
    by code_simp
  note s1 = unrecognized_macro_policy[OF src f p g(1),
      where pre = "[text_cell ''A #$HIDE$'']" and rest = "[text_cell ''B'']"
        and nb_type = "''tutorial''"
        and new_cells = "[[(''cell_type'', PStr ''markdown''),
                  (''metadata'', PDict [(''_kg_hide-input'', PBool True), (''_kg_hide-output'', PBool True)]),
                  (''source'', PStr ''A '')]]",
      THEN conjunct1, rule_format, OF strict]
  note s2 = unrecognized_macro_policy[OF src f p g(2),
      THEN conjunct2, THEN conjunct2, rule_format, OF perm, THEN conjunct1]
  from s1 pre s2 upd show ?thesis by simp
qed

subsection \<open>Framing and bootstrap cells\<close>

lemma install_cells_map:
  "foldl (\<lambda>extra pkg. extra @ [pip_install_cell pkg]) acc pkgs = acc @ map pip_install_cell pkgs"
  by (induction pkgs arbitrary: acc) auto

lemma pip_install_cell_value:
  "pip_install_cell pkg =
     [(''execution_count'', PNone), (''outputs'', PList []),
      (''source'', PList [PStr (''!pip install -U -t /kaggle/working/ '' @ pkg)])]"
  by (simp add: pip_install_cell_def make_cell_def dict_update_def dict_set_def)

lemma syspath_cell_value:
  "syspath_cell =
     [(''execution_count'', PNone), (''outputs'', PList []),
      (''source'', PList [PStr ''import sys\<newline>'', PStr ''sys.path.append('/kaggle/working')''])]"
  by (simp add: syspath_cell_def make_cell_def dict_update_def dict_set_def)

text \<open>
  C1, what the code does. When \<open>daily\<close> is absent or falsy and the scan succeeds, the pass
  does not install a framed sequence: \<open>add_header_and_footer\<close> raises NameError and the
  pass ends with it. When \<open>daily\<close> is truthy and no bootstrap is due, the installed
  sequence is exactly the surviving cells.
\<close>

theorem preprocess_framing:
  "(\<not> truthy (get_default (cfg E) ''daily'' PNone) \<and> scan_cells E nb_cells [] = Inr new_cells \<longrightarrow>
      preprocess E nb_cells nb_type = Inl (NameError ''make_cell''))
   \<and> (truthy (get_default (cfg E) ''daily'' PNone) \<and> scan_cells E nb_cells [] = Inr new_cells
        \<and> \<not> (truthy (get_default (cfg E) ''development'' (PBool False)) \<and> nb_type = ''exercise'') \<longrightarrow>
      preprocess E nb_cells nb_type = Inr new_cells)"
  by (auto simp: preprocess_def add_header_and_footer_def)

theorem preprocess_framing_witness:
  "preprocess sample_env [text_cell ''A''] ''tutorial'' = Inl (NameError ''make_cell'')
   \<and> preprocess daily_env [text_cell ''A''] ''tutorial'' = Inr [text_cell ''A'']"
proof -
  have a: "\<not> truthy (get_default (cfg sample_env) ''daily'' PNone)
           \<and> scan_cells sample_env [text_cell ''A''] [] = Inr [text_cell ''A'']"
    by code_simp
  have b: "truthy (get_default (cfg daily_env) ''daily'' PNone)
           \<and> scan_cells daily_env [text_cell ''A''] [] = Inr [text_cell ''A'']
           \<and> \<not> (truthy (get_default (cfg daily_env) ''development'' (PBool False))
                \<and> ''tutorial'' = ''exercise'')"
    by code_simp
  from preprocess_framing[where E = sample_env and nb_cells = "[text_cell ''A'']"
        and new_cells = "[text_cell ''A'']" and nb_type = "''tutorial''",
        THEN conjunct1, rule_format, OF a]
       preprocess_framing[where E = daily_env and nb_cells = "[text_cell ''A'']"
        and new_cells = "[text_cell ''A'']" and nb_type = "''tutorial''",
        THEN conjunct2, rule_format, OF b]
  show ?thesis by (rule conjI)
qed

text \<open>
  C8, what the code does. \<open>pip_install_hack\<close> with at least one package puts one install
  cell per package, in order, then one cell that appends the working directory to the
  module search path, then the cells there were. A pass in daily mode with a truthy
  \<open>development\<close> on a notebook of type exercise installs the install cell for the branch,
  the path cell and the surviving cells. The generated cells have the keys
  \<open>execution_count\<close>, \<open>outputs\<close> and \<open>source\<close> only: they carry no \<open>cell_type\<close>.
\<close>

theorem preprocess_bootstrap:
  "(pkgs \<noteq> [] \<longrightarrow>
      pip_install_hack nb_cells pkgs = map pip_install_cell pkgs @ [syspath_cell] @ nb_cells)
   \<and> (truthy (get_default (cfg E) ''daily'' PNone)
        \<and> truthy (get_default (cfg E) ''development'' (PBool False))
        \<and> scan_cells E nb_cells [] = Inr new_cells \<and> git_branch E = Inr branch \<longrightarrow>
      preprocess E nb_cells ''exercise''
        = Inr ([(''execution_count'', PNone), (''outputs'', PList []),
                (''source'', PList [PStr (''!pip install -U -t /kaggle/working/ git+https://github.com/Kaggle/learntools.git@'' @ branch)])]
               # [(''execution_count'', PNone), (''outputs'', PList []),
                  (''source'', PList [PStr ''import sys\<newline>'',
                                      PStr ''sys.path.append('/kaggle/working')''])]
               # new_cells))
   \<and> dict_get (pip_install_cell pkg) ''cell_type'' = None
   \<and> dict_get syspath_cell ''cell_type'' = None"
proof (intro conjI impI)
  assume "pkgs \<noteq> []"
  then show "pip_install_hack nb_cells pkgs = map pip_install_cell pkgs @ [syspath_cell] @ nb_cells"
    by (simp add: pip_install_hack_def install_cells_map)
next
  assume a: "truthy (get_default (cfg E) ''daily'' PNone)
        \<and> truthy (get_default (cfg E) ''development'' (PBool False))
        \<and> scan_cells E nb_cells [] = Inr new_cells \<and> git_branch E = Inr branch"
  then have "preprocess E nb_cells ''exercise''
      = Inr (pip_install_hack new_cells [''git+https://github.com/Kaggle/learntools.git@'' @ branch])"
    by (simp add: preprocess_def pip_install_lt_hack_def)
  then show "preprocess E nb_cells ''exercise''
        = Inr ([(''execution_count'', PNone), (''outputs'', PList []),
                (''source'', PList [PStr (''!pip install -U -t /kaggle/working/ git+https://github.com/Kaggle/learntools.git@'' @ branch)])]
               # [(''execution_count'', PNone), (''outputs'', PList []),
                  (''source'', PList [PStr ''import sys\<newline>'',
                                      PStr ''sys.path.append('/kaggle/working')''])]
               # new_cells)"
    by (simp add: pip_install_hack_def pip_install_cell_value syspath_cell_value)
next
  show "dict_get (pip_install_cell pkg) ''cell_type'' = None"
    by (simp add: pip_install_cell_value dict_get_def)
  show "dict_get syspath_cell ''cell_type'' = None"
    by (simp add: syspath_cell_value dict_get_def)
qed

theorem preprocess_bootstrap_witness:
  "preprocess development_env [text_cell ''A''] ''exercise''
     = Inr [[(''execution_count'', PNone), (''outputs'', PList []),
             (''source'', PList [PStr ''!pip install -U -t /kaggle/working/ git+https://github.com/Kaggle/learntools.git@master''])],
            [(''execution_count'', PNone), (''outputs'', PList []),
             (''source'', PList [PStr ''import sys\<newline>'', PStr ''sys.path.append('/kaggle/working')''])],
            text_cell ''A'']"
proof -
  have a: "truthy (get_default (cfg development_env) ''daily'' PNone)
        \<and> truthy (get_default (cfg development_env) ''development'' (PBool False))
        \<and> scan_cells development_env [text_cell ''A''] [] = Inr [text_cell ''A'']
        \<and> git_branch development_env = Inr ''master''"
    by code_simp
  from preprocess_bootstrap[where E = development_env and nb_cells = "[text_cell ''A'']"
        and new_cells = "[text_cell ''A'']" and branch = "''master''",
        THEN conjunct2, THEN conjunct1, rule_format, OF a]
  show ?thesis by simp
qed

end
